theory Spec2Isabelle
  imports Complex_Main
begin

section \<open>Order queue execution and inventory netting (\<^verbatim>\<open>gym_trading/utils/mm_broker.py\<close>)\<close>

text \<open>
  The module keeps three classes: \<^verbatim>\<open>Order\<close>, \<^verbatim>\<open>PositionI\<close> (one inventory per side)
  and \<^verbatim>\<open>Broker\<close>. Each class is a record here and each method a function that takes
  the object and returns the updated object next to the method's return value.

  Numbers: Python \<^verbatim>\<open>float\<close> values are modelled as \<^typ>\<open>real\<close>, so arithmetic is exact
  and the rounding error of IEEE doubles is outside the model; Python \<^verbatim>\<open>int\<close> values
  are \<^typ>\<open>int\<close>. Division of a Python float by zero raises \<^verbatim>\<open>ZeroDivisionError\<close>; a
  method that raises returns \<open>Inl\<close> of the error and no object.

  Objects: the code moves one order object from the slot of an inventory into its list
  of positions, and the model hands the order value on in the same way. An order given
  to \<^verbatim>\<open>add_order\<close> is taken to be an object of its own, as the environment builds a new
  one for every placement. The constant \<^verbatim>\<open>BROKER_FEE\<close> comes from
  \<^verbatim>\<open>configurations.configs\<close>, which is not part of the module; it is the parameter
  \<open>fee\<close> of every function that reads it.
\<close>

subsection \<open>Python primitives\<close>

datatype py_error = ZeroDivisionError | AttributeError

definition py_truediv :: "real \<Rightarrow> real \<Rightarrow> py_error + real" where
  "py_truediv a b = (if b = 0 then Inl ZeroDivisionError else Inr (a / b))"

text \<open>
  \<^verbatim>\<open>round(x, 4)\<close>: the nearest multiple of \<open>1/10000\<close>, a tie going to the even
  multiple.
\<close>

definition round_half_even :: "real \<Rightarrow> int" where
  "round_half_even y =
     (let f = \<lfloor>y\<rfloor>; d = y - of_int f
      in if d < 1 / 2 then f
         else if 1 / 2 < d then f + 1
         else if even f then f else f + 1)"

definition py_round4 :: "real \<Rightarrow> real" where
  "py_round4 x = of_int (round_half_even (x * 10000)) / 10000"

subsection \<open>Order\<close>

record Order =
  ccy :: string
  side :: string
  price :: real
  step :: int
  executed :: real
  order_id :: int
  queue_ahead :: real
  executions :: "(real \<times> real) list"
  average_exectution_price :: real

text \<open>The class attribute \<^verbatim>\<open>Order._size\<close>: the lot size of every order.\<close>

definition Order_size :: real where
  "Order_size = 1000"

text \<open>
  \<^verbatim>\<open>Order.__init__\<close>. The class attribute \<^verbatim>\<open>Order._id\<close> is the one piece of
  process-wide state: the constructor takes its current value and returns the new one
  with the order.
\<close>

definition Order_init :: "int \<Rightarrow> string \<Rightarrow> string \<Rightarrow> real \<Rightarrow> int \<Rightarrow> real \<Rightarrow> Order \<times> int" where
  "Order_init last_id c sd p st qa =
     (\<lparr>ccy = c, side = sd, price = p, step = st, executed = 0,
       order_id = last_id + 1, queue_ahead = qa, executions = [],
       average_exectution_price = - 1\<rparr>,
      last_id + 1)"

definition is_filled :: "Order \<Rightarrow> bool" where
  "is_filled ord = (executed ord \<ge> Order_size)"

definition is_first_in_queue :: "Order \<Rightarrow> bool" where
  "is_first_in_queue ord = (queue_ahead ord \<le> 0)"

text \<open>
  The \<^verbatim>\<open>executions\<close> dict, in insertion order: a volume is added to the entry of its
  price, a new price is appended.
\<close>

fun executions_add :: "real \<Rightarrow> real \<Rightarrow> (real \<times> real) list \<Rightarrow> (real \<times> real) list" where
  "executions_add k v [] = [(k, v)]"
| "executions_add k v ((k', v') # kvs) =
     (if k' = k then (k', v' + v) # kvs else (k', v') # executions_add k v kvs)"

definition process_executions :: "real \<Rightarrow> Order \<Rightarrow> Order" where
  "process_executions volume ord =
     (let ord1 = ord\<lparr>executed := executed ord + volume\<rparr>;
          overflow = (if is_filled ord1 then executed ord1 - Order_size else 0);
          ord2 = (if is_filled ord1 then ord1\<lparr>executed := executed ord1 - overflow\<rparr> else ord1)
      in ord2\<lparr>executions := executions_add (price ord2) (volume - overflow) (executions ord2)\<rparr>)"

definition reduce_queue_ahead :: "real \<Rightarrow> Order \<Rightarrow> Order" where
  "reduce_queue_ahead executed_volume ord =
     (let ord1 = ord\<lparr>queue_ahead := queue_ahead ord - executed_volume\<rparr>
      in if queue_ahead ord1 < 0
         then process_executions (0 - queue_ahead ord1) (ord1\<lparr>queue_ahead := 0\<rparr>)
         else ord1)"

text \<open>
  \<^verbatim>\<open>get_average_execution_price\<close>: the first loop sums \<^verbatim>\<open>v / k\<close> over the dict, the
  second sums \<^verbatim>\<open>k * ((v / k) / total_volume)\<close>; the result is rounded, stored in the
  order and returned.
\<close>

fun total_volume_loop :: "(real \<times> real) list \<Rightarrow> real \<Rightarrow> py_error + real" where
  "total_volume_loop [] total_volume = Inr total_volume"
| "total_volume_loop ((k, v) # kvs) total_volume =
     (case py_truediv v k of
        Inl e \<Rightarrow> Inl e
      | Inr w \<Rightarrow> total_volume_loop kvs (total_volume + w))"

fun average_price_loop :: "(real \<times> real) list \<Rightarrow> real \<Rightarrow> real \<Rightarrow> py_error + real" where
  "average_price_loop [] total_volume acc = Inr acc"
| "average_price_loop ((k, v) # kvs) total_volume acc =
     (case py_truediv v k of
        Inl e \<Rightarrow> Inl e
      | Inr w \<Rightarrow>
          (case py_truediv w total_volume of
             Inl e \<Rightarrow> Inl e
           | Inr f \<Rightarrow> average_price_loop kvs total_volume (acc + k * f)))"

definition get_average_execution_price :: "Order \<Rightarrow> py_error + real \<times> Order" where
  "get_average_execution_price ord =
     (case total_volume_loop (executions ord) 0 of
        Inl e \<Rightarrow> Inl e
      | Inr total_volume \<Rightarrow>
          (case average_price_loop (executions ord) total_volume 0 of
             Inl e \<Rightarrow> Inl e
           | Inr a \<Rightarrow> Inr (py_round4 a, ord\<lparr>average_exectution_price := py_round4 a\<rparr>)))"

subsection \<open>PositionI: the inventory of one side\<close>

record PositionI =
  max_position_count :: int
  positions :: "Order list"
  order :: "Order option"
  realized_pnl :: real
  unrealized_pnl :: real
  full_inventory :: bool
  total_exposure :: real
  inventory_side :: string
  average_price :: real
  reward_size :: real
  total_trade_count :: int

text \<open>
  \<^verbatim>\<open>PositionI.__init__\<close>; the field \<^verbatim>\<open>side\<close> is \<open>inventory_side\<close> here, apart from
  the \<open>side\<close> of an order. \<^verbatim>\<open>reward_size = 1 / max_position\<close> raises for a
  capacity of zero.
\<close>

definition PositionI_init :: "string \<Rightarrow> int \<Rightarrow> py_error + PositionI" where
  "PositionI_init sd max_position =
     (case py_truediv 1 (of_int max_position) of
        Inl e \<Rightarrow> Inl e
      | Inr r \<Rightarrow>
          Inr \<lparr>max_position_count = max_position, positions = [], order = None,
               realized_pnl = 0, unrealized_pnl = 0, full_inventory = False,
               total_exposure = 0, inventory_side = sd, average_price = 0,
               reward_size = r, total_trade_count = 0\<rparr>)"

definition PositionI_reset :: "PositionI \<Rightarrow> PositionI" where
  "PositionI_reset self =
     self\<lparr>positions := [], order := None, realized_pnl := 0, unrealized_pnl := 0,
         full_inventory := False, total_exposure := 0, average_price := 0,
         total_trade_count := 0\<rparr>"

definition position_count :: "PositionI \<Rightarrow> nat" where
  "position_count self = length (positions self)"

text \<open>
  \<^verbatim>\<open>add_order\<close>: an empty slot takes the order; an occupied slot keeps its order
  object and has three of its fields overwritten.
\<close>

definition add_order :: "Order \<Rightarrow> PositionI \<Rightarrow> bool \<times> PositionI" where
  "add_order new_order self =
     (if \<not> full_inventory self then
        (case order self of
           None \<Rightarrow> (True, self\<lparr>order := Some new_order\<rparr>)
         | Some cur \<Rightarrow>
             (True, self\<lparr>order := Some (cur\<lparr>price := price new_order,
                                            queue_ahead := queue_ahead new_order,
                                            order_id := order_id new_order\<rparr>)\<rparr>))
      else (False, self))"

definition cancel_order :: "PositionI \<Rightarrow> bool \<times> PositionI" where
  "cancel_order self =
     (case order self of
        None \<Rightarrow> (False, self)
      | Some cur \<Rightarrow> (True, self\<lparr>order := None\<rparr>))"

text \<open>
  The first half of \<^verbatim>\<open>PositionI.step\<close>: the traded volume of the order's own side
  reaches the order when the quote has come to its price.
\<close>

definition apply_volume :: "real \<Rightarrow> real \<Rightarrow> real \<Rightarrow> real \<Rightarrow> Order \<Rightarrow> Order" where
  "apply_volume bid_price ask_price buy_volume sell_volume ord =
     (if side ord = ''long'' then
        (if bid_price \<le> price ord then
           (if is_first_in_queue ord then process_executions buy_volume ord
            else reduce_queue_ahead buy_volume ord)
         else ord)
      else if side ord = ''short'' then
        (if ask_price \<ge> price ord then
           (if is_first_in_queue ord then process_executions sell_volume ord
            else reduce_queue_ahead sell_volume ord)
         else ord)
      else ord)"

text \<open>
  \<^verbatim>\<open>PositionI.step\<close>. The list \<^verbatim>\<open>positions\<close> holds the order object itself, so the
  average price that \<^verbatim>\<open>get_average_execution_price\<close> stores in the order after the
  append is in the list entry too. The division is by the count after the append,
  which is at least one.
\<close>

definition PositionI_step ::
  "real \<Rightarrow> real \<Rightarrow> real \<Rightarrow> real \<Rightarrow> int \<Rightarrow> PositionI \<Rightarrow> py_error + bool \<times> PositionI" where
  "PositionI_step bid_price ask_price buy_volume sell_volume stp self =
     (case order self of
        None \<Rightarrow> Inr (False, self)
      | Some cur \<Rightarrow>
          (let ord = apply_volume bid_price ask_price buy_volume sell_volume cur
           in if is_filled ord then
                (case get_average_execution_price ord of
                   Inl e \<Rightarrow> Inl e
                 | Inr (avg, ord') \<Rightarrow>
                     (let ps = positions self @ [ord'];
                          te = total_exposure self + avg
                      in Inr (True,
                           self\<lparr>positions := ps, total_exposure := te,
                               average_price := te / of_nat (length ps),
                               full_inventory := (int (length ps) \<ge> max_position_count self),
                               order := None\<rparr>)))
              else Inr (False, self\<lparr>order := Some ord\<rparr>)))"

text \<open>\<^verbatim>\<open>pop_position\<close>: \<^verbatim>\<open>positions.pop()\<close> takes the last entry.\<close>

definition pop_position :: "PositionI \<Rightarrow> Order option \<times> PositionI" where
  "pop_position self =
     (if position_count self > 0 then
        (let position = last (positions self);
             ps = butlast (positions self);
             te = total_exposure self - average_exectution_price position
         in (Some position,
             self\<lparr>positions := ps, total_exposure := te,
                 average_price := (if length ps > 0 then te / of_nat (length ps) else 0),
                 full_inventory := (int (length ps) \<ge> max_position_count self)\<rparr>))
      else (None, self))"

text \<open>\<^verbatim>\<open>remove_position\<close>: \<^verbatim>\<open>positions.pop(0)\<close> takes the first entry.\<close>

definition remove_position :: "real \<Rightarrow> PositionI \<Rightarrow> py_error + real \<times> PositionI" where
  "remove_position midpoint self =
     (case positions self of
        [] \<Rightarrow> Inr (0, self)
      | ord # ps \<Rightarrow>
          (case (if inventory_side self = ''long''
                   then py_truediv (midpoint - price ord) (price ord)
                 else if inventory_side self = ''short''
                   then py_truediv (price ord - midpoint) (price ord)
                 else Inr 0) of
             Inl e \<Rightarrow> Inl e
           | Inr pnl \<Rightarrow>
               (let te = total_exposure self - average_exectution_price ord
                in Inr (pnl,
                     self\<lparr>positions := ps, realized_pnl := realized_pnl self + pnl,
                         total_exposure := te,
                         average_price := (if length ps > 0 then te / of_nat (length ps) else 0),
                         full_inventory := (int (length ps) \<ge> max_position_count self),
                         total_trade_count := total_trade_count self + 1\<rparr>))))"

text \<open>
  The \<^verbatim>\<open>while\<close> loop of \<^verbatim>\<open>flatten_inventory\<close>; \<open>fee\<close> is the constant
  \<^verbatim>\<open>BROKER_FEE\<close> of \<^verbatim>\<open>configurations.configs\<close>, a parameter here.
\<close>

function flatten_loop :: "real \<Rightarrow> real \<Rightarrow> PositionI \<Rightarrow> py_error + PositionI" where
  "flatten_loop fee midpoint self =
     (if position_count self > 0 then
        (case remove_position midpoint self of
           Inl e \<Rightarrow> Inl e
         | Inr (pnl, self') \<Rightarrow>
             flatten_loop fee midpoint (self'\<lparr>realized_pnl := realized_pnl self' - fee\<rparr>))
      else Inr self)"
  by pat_completeness auto
termination
proof (relation "measure (\<lambda>(fee, midpoint, self). position_count self)")
  show "wf (measure (\<lambda>(fee, midpoint, self). position_count self))"
    by simp
next
  fix fee midpoint :: real and self self' :: PositionI and x :: "real \<times> PositionI" and pnl :: real
  assume pos: "0 < position_count self"
    and rm: "remove_position midpoint self = Inr x"
    and x: "(pnl, self') = x"
  from pos obtain ord ps where ps: "positions self = ord # ps"
    by (cases "positions self") (simp_all add: position_count_def)
  from rm x ps have "positions self' = ps"
    by (auto simp: remove_position_def Let_def split: sum.splits if_splits)
  with ps show "((fee, midpoint, self'\<lparr>realized_pnl := realized_pnl self' - fee\<rparr>), fee, midpoint, self)
      \<in> measure (\<lambda>(fee, midpoint, self). position_count self)"
    by (simp add: position_count_def)
qed

declare flatten_loop.simps [simp del]

definition flatten_inventory :: "real \<Rightarrow> real \<Rightarrow> PositionI \<Rightarrow> py_error + real \<times> PositionI" where
  "flatten_inventory fee midpoint self =
     (let prev_realized_pnl = realized_pnl self
      in if position_count self < 1 then Inr (- (1 / 10 ^ 11), self)
         else
           (case flatten_loop fee midpoint self of
              Inl e \<Rightarrow> Inl e
            | Inr self' \<Rightarrow> Inr (realized_pnl self' - prev_realized_pnl, self')))"

subsection \<open>Broker\<close>

record Broker =
  long_inventory :: PositionI
  short_inventory :: PositionI

text \<open>The class attribute \<^verbatim>\<open>Broker.reward_scale = BROKER_FEE * 2.\<close>\<close>

definition reward_scale :: "real \<Rightarrow> real" where
  "reward_scale fee = fee * 2"

definition Broker_init :: "int \<Rightarrow> py_error + Broker" where
  "Broker_init max_position =
     (case PositionI_init ''long'' max_position of
        Inl e \<Rightarrow> Inl e
      | Inr li \<Rightarrow>
          (case PositionI_init ''short'' max_position of
             Inl e \<Rightarrow> Inl e
           | Inr si \<Rightarrow> Inr \<lparr>long_inventory = li, short_inventory = si\<rparr>))"

definition Broker_reset :: "Broker \<Rightarrow> Broker" where
  "Broker_reset self =
     self\<lparr>long_inventory := PositionI_reset (long_inventory self),
          short_inventory := PositionI_reset (short_inventory self)\<rparr>"

definition Broker_add :: "Order \<Rightarrow> Broker \<Rightarrow> bool \<times> Broker" where
  "Broker_add ord self =
     (if side ord = ''long'' then
        (case add_order ord (long_inventory self) of
           (ok, li) \<Rightarrow> (ok, self\<lparr>long_inventory := li\<rparr>))
      else if side ord = ''short'' then
        (case add_order ord (short_inventory self) of
           (ok, si) \<Rightarrow> (ok, self\<lparr>short_inventory := si\<rparr>))
      else (False, self))"

definition Broker_flatten_inventory ::
  "real \<Rightarrow> real \<Rightarrow> real \<Rightarrow> Broker \<Rightarrow> py_error + real \<times> Broker" where
  "Broker_flatten_inventory fee bid_price ask_price self =
     (case flatten_inventory fee bid_price (long_inventory self) of
        Inl e \<Rightarrow> Inl e
      | Inr (long_pnl, li) \<Rightarrow>
          (case flatten_inventory fee ask_price (short_inventory self) of
             Inl e \<Rightarrow> Inl e
           | Inr (short_pnl, si) \<Rightarrow>
               (let total_pnl = long_pnl + short_pnl;
                    self' = \<lparr>long_inventory = li, short_inventory = si\<rparr>
                in if total_pnl \<noteq> 0 then
                     (case py_truediv total_pnl (reward_scale fee) of
                        Inl e \<Rightarrow> Inl e
                      | Inr r \<Rightarrow> Inr (r, self'))
                   else Inr (total_pnl, self'))))"

text \<open>
  The block that \<^verbatim>\<open>Broker.step\<close> runs after the step of either inventory:
  \<open>stepped\<close> is the inventory just stepped, \<open>filled\<close> what its step returned and
  \<open>other\<close> the opposite inventory. The result is the profit to add and the two
  inventories in the same order. \<^verbatim>\<open>new_position.price\<close> on \<^verbatim>\<open>None\<close> would raise
  \<^verbatim>\<open>AttributeError\<close>.
\<close>

definition net_inventory ::
  "bool \<Rightarrow> PositionI \<Rightarrow> PositionI \<Rightarrow> py_error + real \<times> PositionI \<times> PositionI" where
  "net_inventory filled stepped other =
     (if filled then
        (if position_count other > 0 then
           (case pop_position stepped of
              (None, stepped') \<Rightarrow> Inl AttributeError
            | (Some new_position, stepped') \<Rightarrow>
                (case remove_position (price new_position) other of
                   Inl e \<Rightarrow> Inl e
                 | Inr (pnl, other') \<Rightarrow> Inr (pnl, stepped', other')))
         else Inr (0, stepped, other))
      else Inr (0, stepped, other))"

definition Broker_step ::
  "real \<Rightarrow> real \<Rightarrow> real \<Rightarrow> real \<Rightarrow> real \<Rightarrow> int \<Rightarrow> Broker \<Rightarrow> py_error + real \<times> Broker" where
  "Broker_step fee bid_price ask_price buy_volume sell_volume stp self =
     (case PositionI_step bid_price ask_price buy_volume sell_volume stp (long_inventory self) of
        Inl e \<Rightarrow> Inl e
      | Inr (long_filled, li) \<Rightarrow>
          (case net_inventory long_filled li (short_inventory self) of
             Inl e \<Rightarrow> Inl e
           | Inr (pnl1, li1, si1) \<Rightarrow>
               (case PositionI_step bid_price ask_price buy_volume sell_volume stp si1 of
                  Inl e \<Rightarrow> Inl e
                | Inr (short_filled, si2) \<Rightarrow>
                    (case net_inventory short_filled si2 li1 of
                       Inl e \<Rightarrow> Inl e
                     | Inr (pnl2, si3, li3) \<Rightarrow>
                         (case py_truediv (0 + pnl1 + pnl2) (reward_scale fee) of
                            Inl e \<Rightarrow> Inl e
                          | Inr r \<Rightarrow>
                              Inr (r, \<lparr>long_inventory = li3, short_inventory = si3\<rparr>))))))"

subsection \<open>The process: the order counter beside the broker\<close>

text \<open>
  \<^verbatim>\<open>Order._id\<close> is a class attribute, shared by every order of the process. A
  process state holds it next to the broker; the calls are the ones the environment
  makes between and across episodes: it builds an order and hands it to
  \<^verbatim>\<open>Broker.add\<close>, and it calls \<^verbatim>\<open>Broker.reset\<close>.
\<close>

record Process =
  Order_id :: int
  broker :: Broker

datatype call = Place string string real int real | Reset

fun do_call :: "Process \<Rightarrow> call \<Rightarrow> Process" where
  "do_call p (Place c sd pr st qa) =
     (case Order_init (Order_id p) c sd pr st qa of
        (ord, next_id) \<Rightarrow> \<lparr>Order_id = next_id, broker = snd (Broker_add ord (broker p))\<rparr>)"
| "do_call p Reset = p\<lparr>broker := Broker_reset (broker p)\<rparr>"

definition do_calls :: "Process \<Rightarrow> call list \<Rightarrow> Process" where
  "do_calls p cs = foldl do_call p cs"

subsection \<open>Sequences of calls on one order and on one inventory\<close>

datatype order_call = Reduce_queue_ahead real | Process_executions real

fun volume_of :: "order_call \<Rightarrow> real" where
  "volume_of (Reduce_queue_ahead v) = v"
| "volume_of (Process_executions v) = v"

fun do_order_call :: "Order \<Rightarrow> order_call \<Rightarrow> Order" where
  "do_order_call ord (Reduce_queue_ahead v) = reduce_queue_ahead v ord"
| "do_order_call ord (Process_executions v) = process_executions v ord"

definition do_order_calls :: "Order \<Rightarrow> order_call list \<Rightarrow> Order" where
  "do_order_calls ord cs = foldl do_order_call ord cs"

text \<open>The volume recorded in the \<^verbatim>\<open>executions\<close> dict of an order.\<close>

definition recorded_volume :: "Order \<Rightarrow> real" where
  "recorded_volume ord = sum_list (map snd (executions ord))"

text \<open>
  What every call on an order keeps: the queue is not negative, the executed volume is
  within the lot, and the dict records exactly the executed volume.
\<close>

definition order_inv :: "Order \<Rightarrow> bool" where
  "order_inv ord =
     (0 \<le> queue_ahead ord \<and> executed ord \<le> Order_size \<and> recorded_volume ord = executed ord)"

text \<open>
  The profit of closing one position against a reference price, as the specification
  states it: relative to the position's price, signed by the side of the inventory.
\<close>

definition claimed_pnl :: "string \<Rightarrow> real \<Rightarrow> Order \<Rightarrow> real" where
  "claimed_pnl sd reference_price position =
     (if sd = ''long'' then (reference_price - price position) / price position
      else if sd = ''short'' then (price position - reference_price) / price position
      else 0)"

subsection \<open>Sequences of calls on one inventory\<close>

datatype inventory_call =
    Add_order Order
  | Step real real real real int
  | Pop_position
  | Remove_position real
  | Flatten_inventory real
  | Cancel_order
  | Reset_inventory

text \<open>One call on an inventory; the value a method returns is dropped here.\<close>

fun do_inventory_call :: "real \<Rightarrow> PositionI \<Rightarrow> inventory_call \<Rightarrow> py_error + PositionI" where
  "do_inventory_call fee self (Add_order ord) = Inr (snd (add_order ord self))"
| "do_inventory_call fee self (Step bid_price ask_price buy_volume sell_volume stp) =
     (case PositionI_step bid_price ask_price buy_volume sell_volume stp self of
        Inl e \<Rightarrow> Inl e
      | Inr (filled, self') \<Rightarrow> Inr self')"
| "do_inventory_call fee self Pop_position = Inr (snd (pop_position self))"
| "do_inventory_call fee self (Remove_position midpoint) =
     (case remove_position midpoint self of
        Inl e \<Rightarrow> Inl e
      | Inr (pnl, self') \<Rightarrow> Inr self')"
| "do_inventory_call fee self (Flatten_inventory midpoint) =
     (case flatten_inventory fee midpoint self of
        Inl e \<Rightarrow> Inl e
      | Inr (pnl, self') \<Rightarrow> Inr self')"
| "do_inventory_call fee self Cancel_order = Inr (snd (cancel_order self))"
| "do_inventory_call fee self Reset_inventory = Inr (PositionI_reset self)"

text \<open>A sequence of calls stops at the first one that raises.\<close>

fun do_inventory_calls :: "real \<Rightarrow> PositionI \<Rightarrow> inventory_call list \<Rightarrow> py_error + PositionI" where
  "do_inventory_calls fee self [] = Inr self"
| "do_inventory_calls fee self (c # cs) =
     (case do_inventory_call fee self c of
        Inl e \<Rightarrow> Inl e
      | Inr self' \<Rightarrow> do_inventory_calls fee self' cs)"

text \<open>
  What every call on an inventory keeps: the count is within the capacity, the flag
  says whether the capacity is reached, and an order rests only below the capacity.
\<close>

definition inventory_inv :: "PositionI \<Rightarrow> bool" where
  "inventory_inv self =
     (1 \<le> max_position_count self
      \<and> int (position_count self) \<le> max_position_count self
      \<and> full_inventory self = (max_position_count self \<le> int (position_count self))
      \<and> (order self = None \<or> \<not> full_inventory self))"

text \<open>The orders that rest in an inventory: the class keeps one slot for them.\<close>

definition active_orders :: "PositionI \<Rightarrow> Order list" where
  "active_orders self = (case order self of None \<Rightarrow> [] | Some ord \<Rightarrow> [ord])"

subsection \<open>Example objects\<close>

text \<open>
  A position as \<^verbatim>\<open>PositionI.step\<close> leaves it in the list when an order of side \<open>sd\<close> was
  filled by one execution at price \<open>p\<close>, \<open>avg\<close> being the stored average price.
\<close>

definition filled_order :: "string \<Rightarrow> real \<Rightarrow> real \<Rightarrow> Order" where
  "filled_order sd p avg =
     \<lparr>ccy = ''BTC-USD'', side = sd, price = p, step = 0, executed = 1000, order_id = 1,
      queue_ahead = 0, executions = [(p, 1000)], average_exectution_price = avg\<rparr>"

text \<open>
  An inventory of side \<open>sd\<close> and capacity \<open>m\<close> that holds the positions \<open>ps\<close> and
  the resting order \<open>ord\<close>, with no profit realized yet.
\<close>

definition inventory_holding :: "string \<Rightarrow> int \<Rightarrow> Order list \<Rightarrow> Order option \<Rightarrow> PositionI" where
  "inventory_holding sd m ps ord =
     \<lparr>max_position_count = m, positions = ps, order = ord, realized_pnl = 0,
      unrealized_pnl = 0, full_inventory = (m \<le> int (length ps)),
      total_exposure = sum_list (map average_exectution_price ps), inventory_side = sd,
      average_price =
        (if ps = [] then 0 else sum_list (map average_exectution_price ps) / of_nat (length ps)),
      reward_size = 1 / of_int m, total_trade_count = 0\<rparr>"

section \<open>Properties of an order\<close>

subsection \<open>Rounding\<close>

lemma round_half_even_bounds: "\<bar>of_int (round_half_even y) - y\<bar> \<le> 1 / 2"
  unfolding round_half_even_def Let_def
  by (auto simp: abs_le_iff)

lemma py_round4_near: "\<bar>py_round4 x - x\<bar> \<le> 1 / 20000"
proof -
  have "\<bar>of_int (round_half_even (x * 10000)) - x * 10000\<bar> \<le> 1 / 2"
    by (rule round_half_even_bounds)
  then show ?thesis
    unfolding py_round4_def by (simp add: abs_le_iff field_simps)
qed

lemma py_round4_grid: "py_round4 x * 10000 \<in> \<int>"
  by (simp add: py_round4_def)

lemma py_round4_fixed: "py_round4 (of_int n / 10000) = of_int n / 10000"
  by (simp add: py_round4_def round_half_even_def)

subsection \<open>The average execution price\<close>

lemma total_volume_loop_eq:
  "total_volume_loop kvs acc =
     (if \<forall>(k, v) \<in> set kvs. k \<noteq> 0
      then Inr (acc + sum_list (map (\<lambda>(k, v). v / k) kvs))
      else Inl ZeroDivisionError)"
  by (induction kvs acc rule: total_volume_loop.induct)
     (auto simp: py_truediv_def)

lemma average_price_loop_eq:
  "average_price_loop kvs t acc =
     (if (\<forall>(k, v) \<in> set kvs. k \<noteq> 0) \<and> (kvs = [] \<or> t \<noteq> 0)
      then Inr (acc + sum_list (map (\<lambda>(k, v). k * (v / k)) kvs) / t)
      else Inl ZeroDivisionError)"
proof (induction kvs arbitrary: acc)
  case Nil
  show ?case by simp
next
  case (Cons kv kvs)
  obtain k v where kv: "kv = (k, v)" by (cases kv)
  show ?case
  proof (cases "k = 0 \<or> t = 0")
    case True
    then show ?thesis
      by (auto simp: kv py_truediv_def)
  next
    case False
    then have step: "average_price_loop (kv # kvs) t acc =
        average_price_loop kvs t (acc + k * (v / k / t))"
      by (simp add: kv py_truediv_def)
    show ?thesis
      unfolding step Cons.IH using False
      by (simp add: kv add_divide_distrib)
  qed
qed

text \<open>
  C2. For an order whose \<^verbatim>\<open>executions\<close> dict is not empty,
  \<^verbatim>\<open>get_average_execution_price\<close> returns the sum of \<open>price_i * w_i\<close> divided by
  \<open>total_w\<close>, rounded to four decimal places, where \<open>w_i = volume_i / price_i\<close> and
  \<open>total_w\<close> is the sum of the \<open>w_i\<close>. The quotients exist when no recorded price is
  zero and \<open>total_w\<close> is not zero; otherwise the call raises \<^verbatim>\<open>ZeroDivisionError\<close>.
  The rounded value is stored in the order as well.
\<close>

theorem average_execution_price_formula:
  assumes "executions ord \<noteq> []"
  shows "get_average_execution_price ord =
     (let w = map (\<lambda>(price_i, volume_i). volume_i / price_i) (executions ord);
          total_w = sum_list w;
          avg = py_round4
            (sum_list (map (\<lambda>(price_i, volume_i). price_i * (volume_i / price_i))
               (executions ord)) / total_w)
      in if (\<forall>(price_i, volume_i) \<in> set (executions ord). price_i \<noteq> 0) \<and> total_w \<noteq> 0
         then Inr (avg, ord\<lparr>average_exectution_price := avg\<rparr>)
         else Inl ZeroDivisionError)"
  using assms
  by (simp add: get_average_execution_price_def total_volume_loop_eq average_price_loop_eq Let_def)

text \<open>
  An order filled with 400 at price 100 and 600 at price 200: the weights are 4 and 3,
  the average is \<open>1000 / 7\<close>, rounded to 142.8571 (the volume-weighted average of the
  two prices would be 160).
\<close>

theorem average_execution_price_formula_witness:
  "executions \<lparr>ccy = ''BTC-USD'', side = ''long'', price = 200, step = 7, executed = 1000,
       order_id = 1, queue_ahead = 0, executions = [(100, 400), (200, 600)],
       average_exectution_price = - 1\<rparr> \<noteq> []
   \<and> get_average_execution_price
       \<lparr>ccy = ''BTC-USD'', side = ''long'', price = 200, step = 7, executed = 1000,
        order_id = 1, queue_ahead = 0, executions = [(100, 400), (200, 600)],
        average_exectution_price = - 1\<rparr>
     = Inr (1428571 / 10000,
         \<lparr>ccy = ''BTC-USD'', side = ''long'', price = 200, step = 7, executed = 1000,
          order_id = 1, queue_ahead = 0, executions = [(100, 400), (200, 600)],
          average_exectution_price = 1428571 / 10000\<rparr>)"
  using average_execution_price_formula
    [of "\<lparr>ccy = ''BTC-USD'', side = ''long'', price = 200, step = 7, executed = 1000,
          order_id = 1, queue_ahead = 0, executions = [(100, 400), (200, 600)],
          average_exectution_price = - 1\<rparr>"]
  by (simp add: py_round4_def round_half_even_def Let_def)

subsection \<open>Queue depletion and the cap on executions\<close>

lemma recorded_executions_add:
  "sum_list (map snd (executions_add k v kvs)) = sum_list (map snd kvs) + v"
  by (induction kvs) auto

lemma process_executions_fields:
  "queue_ahead (process_executions v ord) = queue_ahead ord"
  "executed (process_executions v ord) = min Order_size (executed ord + v)"
  "recorded_volume (process_executions v ord) =
     recorded_volume ord + (min Order_size (executed ord + v) - executed ord)"
  by (auto simp: process_executions_def is_filled_def Let_def recorded_volume_def
        recorded_executions_add)

text \<open>
  A reduction larger than the queue empties the queue and executes the rest; an
  execution beyond the lot is cut at the lot size.
\<close>

lemma reduce_queue_ahead_fields:
  "queue_ahead (reduce_queue_ahead v ord) = max 0 (queue_ahead ord - v)"
  "executed (reduce_queue_ahead v ord) =
     (if queue_ahead ord - v < 0 then min Order_size (executed ord + (v - queue_ahead ord))
      else executed ord)"
  by (simp_all add: reduce_queue_ahead_def Let_def process_executions_fields)

lemma process_executions_inv:
  "order_inv ord \<Longrightarrow> order_inv (process_executions v ord)"
  by (simp add: order_inv_def process_executions_fields)

lemma reduce_queue_ahead_inv:
  assumes "order_inv ord"
  shows "order_inv (reduce_queue_ahead v ord)"
proof (cases "queue_ahead ord - v < 0")
  case True
  have "order_inv (ord\<lparr>queue_ahead := 0\<rparr>)"
    using assms by (simp add: order_inv_def recorded_volume_def)
  then have "order_inv (process_executions (v - queue_ahead ord) (ord\<lparr>queue_ahead := 0\<rparr>))"
    by (rule process_executions_inv)
  with True show ?thesis
    by (simp add: reduce_queue_ahead_def Let_def)
next
  case False
  with assms show ?thesis
    by (simp add: reduce_queue_ahead_def Let_def order_inv_def recorded_volume_def)
qed

lemma do_order_calls_inv:
  "order_inv ord \<Longrightarrow> order_inv (do_order_calls ord cs)"
  unfolding do_order_calls_def
proof (induction cs arbitrary: ord)
  case Nil
  then show ?case by simp
next
  case (Cons c cs)
  have "order_inv (do_order_call ord c)"
    using Cons.prems by (cases c) (simp_all add: process_executions_inv reduce_queue_ahead_inv)
  then show ?case using Cons.IH by simp
qed

lemma Order_init_inv:
  "0 \<le> qa \<Longrightarrow> order_inv (fst (Order_init last_id c sd p st qa))"
  by (simp add: Order_init_def order_inv_def recorded_volume_def Order_size_def)

lemma do_order_call_executed_nonneg:
  assumes "0 \<le> executed ord" and "0 \<le> volume_of c"
  shows "0 \<le> executed (do_order_call ord c)"
proof (cases c)
  case (Reduce_queue_ahead v)
  show ?thesis
    using assms
    by (simp add: Reduce_queue_ahead reduce_queue_ahead_def Let_def
        process_executions_fields Order_size_def)
next
  case (Process_executions v)
  show ?thesis
    using assms
    by (simp add: Process_executions process_executions_fields Order_size_def)
qed

lemma do_order_calls_executed_nonneg:
  "0 \<le> executed ord \<Longrightarrow> \<forall>c \<in> set cs. 0 \<le> volume_of c \<Longrightarrow>
   0 \<le> executed (do_order_calls ord cs)"
  unfolding do_order_calls_def
  by (induction cs arbitrary: ord) (simp_all add: do_order_call_executed_nonneg)

text \<open>
  The whole effect of either call, as one update of the order: \<^verbatim>\<open>process_executions\<close>
  raises the executed volume up to the lot size and records at the order's price what
  it has raised it by; \<^verbatim>\<open>reduce_queue_ahead\<close> takes the volume off the queue and, when
  the volume is larger than the queue, sets the queue to zero and hands the rest to
  \<^verbatim>\<open>process_executions\<close>.
\<close>

lemma process_executions_eq:
  "process_executions v ord =
     ord\<lparr>executed := min Order_size (executed ord + v),
         executions := executions_add (price ord)
           (min Order_size (executed ord + v) - executed ord) (executions ord)\<rparr>"
  by (simp add: process_executions_def is_filled_def Let_def min_def)

lemma reduce_queue_ahead_eq:
  "reduce_queue_ahead v ord =
     (if queue_ahead ord < v
      then ord\<lparr>queue_ahead := 0,
               executed := min Order_size (executed ord + (v - queue_ahead ord)),
               executions := executions_add (price ord)
                 (min Order_size (executed ord + (v - queue_ahead ord)) - executed ord)
                 (executions ord)\<rparr>
      else ord\<lparr>queue_ahead := queue_ahead ord - v\<rparr>)"
  by (simp add: reduce_queue_ahead_def Let_def process_executions_eq)

lemma do_order_calls_Suc:
  "n < length cs \<Longrightarrow>
   do_order_calls ord (take (Suc n) cs) = do_order_call (do_order_calls ord (take n cs)) (cs ! n)"
  by (simp add: do_order_calls_def take_Suc_conv_app_nth)

text \<open>
  C3. An order is created with a queue that is not negative; then any calls of
  \<^verbatim>\<open>reduce_queue_ahead\<close> and \<^verbatim>\<open>process_executions\<close> with volumes that are not
  negative follow. After each call (\<open>ord\<close> is the order after the first \<open>n\<close> calls,
  for every \<open>n\<close>) the executed volume is at most the lot size and not negative, the
  volume recorded in the \<^verbatim>\<open>executions\<close> dict is the executed volume and so at most the
  lot size too, and the queue is not negative. The next call (\<open>ord'\<close> is the order
  after it) does this and no more: a reduction by more than the queue sets the queue to
  zero and executes the part of the volume beyond the queue, a smaller one only shortens
  the queue; an execution raises the executed volume up to the lot size, and what is
  recorded at the order's price is the volume less the part beyond the lot.
\<close>

theorem order_calls_invariant:
  assumes "0 \<le> qa" and "\<forall>c \<in> set cs. 0 \<le> volume_of c"
  shows "let ord = do_order_calls (fst (Order_init last_id c sd p st qa)) (take n cs);
             ord' = do_order_calls (fst (Order_init last_id c sd p st qa)) (take (Suc n) cs)
         in executed ord \<le> Order_size
          \<and> recorded_volume ord = executed ord
          \<and> recorded_volume ord \<le> Order_size
          \<and> 0 \<le> queue_ahead ord
          \<and> 0 \<le> executed ord
          \<and> (n < length cs \<longrightarrow>
               (case cs ! n of
                  Reduce_queue_ahead v \<Rightarrow>
                    (if queue_ahead ord < v
                     then ord' =
                       ord\<lparr>queue_ahead := 0,
                           executed := min Order_size (executed ord + (v - queue_ahead ord)),
                           executions := executions_add (price ord)
                             (min Order_size (executed ord + (v - queue_ahead ord)) - executed ord)
                             (executions ord)\<rparr>
                     else ord' = ord\<lparr>queue_ahead := queue_ahead ord - v\<rparr>)
                | Process_executions v \<Rightarrow>
                    ord' =
                      ord\<lparr>executed := min Order_size (executed ord + v),
                          executions := executions_add (price ord)
                            (min Order_size (executed ord + v) - executed ord)
                            (executions ord)\<rparr>))"
proof -
  define ord where "ord = do_order_calls (fst (Order_init last_id c sd p st qa)) (take n cs)"
  have "order_inv ord"
    unfolding ord_def using assms(1) by (intro do_order_calls_inv Order_init_inv)
  moreover have "\<forall>c \<in> set (take n cs). 0 \<le> volume_of c"
    using assms(2) by (meson in_set_takeD)
  then have "0 \<le> executed ord"
    unfolding ord_def by (intro do_order_calls_executed_nonneg) (simp_all add: Order_init_def)
  moreover have "do_order_calls (fst (Order_init last_id c sd p st qa)) (take (Suc n) cs)
      = do_order_call ord (cs ! n)" if "n < length cs"
    unfolding ord_def using that by (rule do_order_calls_Suc)
  ultimately show ?thesis
    unfolding Let_def ord_def [symmetric]
    by (cases "cs ! n")
       (simp_all add: order_inv_def reduce_queue_ahead_eq process_executions_eq)
qed


text \<open>
  A queue of 50 meets volumes 30 and 700, then 500 is executed directly: the first
  call leaves a queue of 20, the second empties it and spills 680 into the order, the
  third is cut from 500 to 320 by the cap, and the dict records 1000 at the price 100.
\<close>

theorem order_calls_invariant_witness:
  "(0::real) \<le> 50
   \<and> 0 \<le> volume_of (Reduce_queue_ahead 30) \<and> 0 \<le> volume_of (Reduce_queue_ahead 700)
   \<and> 0 \<le> volume_of (Process_executions 500)
   \<and> (1::nat) < length [Reduce_queue_ahead 30, Reduce_queue_ahead 700, Process_executions 500]
   \<and> (2::nat) < length [Reduce_queue_ahead 30, Reduce_queue_ahead 700, Process_executions 500]
   \<and> do_order_calls (fst (Order_init 0 ''BTC-USD'' ''long'' 100 0 50))
        (take 1 [Reduce_queue_ahead 30, Reduce_queue_ahead 700, Process_executions 500])
       = (fst (Order_init 0 ''BTC-USD'' ''long'' 100 0 50))\<lparr>queue_ahead := 20\<rparr>
   \<and> do_order_calls (fst (Order_init 0 ''BTC-USD'' ''long'' 100 0 50))
        (take 2 [Reduce_queue_ahead 30, Reduce_queue_ahead 700, Process_executions 500])
       = (fst (Order_init 0 ''BTC-USD'' ''long'' 100 0 50))
           \<lparr>queue_ahead := 0, executed := 680, executions := [(100, 680)]\<rparr>
   \<and> do_order_calls (fst (Order_init 0 ''BTC-USD'' ''long'' 100 0 50))
        (take 3 [Reduce_queue_ahead 30, Reduce_queue_ahead 700, Process_executions 500])
       = (fst (Order_init 0 ''BTC-USD'' ''long'' 100 0 50))
           \<lparr>queue_ahead := 0, executed := 1000, executions := [(100, 1000)]\<rparr>
   \<and> recorded_volume (do_order_calls (fst (Order_init 0 ''BTC-USD'' ''long'' 100 0 50))
        (take 3 [Reduce_queue_ahead 30, Reduce_queue_ahead 700, Process_executions 500])) = 1000"
proof -
  have qa: "(0::real) \<le> 50"
    by simp
  have vols: "\<forall>c \<in> set [Reduce_queue_ahead 30, Reduce_queue_ahead 700, Process_executions 500].
      0 \<le> volume_of c"
    by simp
  have first: "do_order_calls (fst (Order_init 0 ''BTC-USD'' ''long'' 100 0 50))
        (take 1 [Reduce_queue_ahead 30, Reduce_queue_ahead 700, Process_executions 500])
       = (fst (Order_init 0 ''BTC-USD'' ''long'' 100 0 50))\<lparr>queue_ahead := 20\<rparr>"
    by (simp add: do_order_calls_def reduce_queue_ahead_def Let_def Order_init_def)
  have second: "do_order_calls (fst (Order_init 0 ''BTC-USD'' ''long'' 100 0 50))
        (take 2 [Reduce_queue_ahead 30, Reduce_queue_ahead 700, Process_executions 500])
       = (fst (Order_init 0 ''BTC-USD'' ''long'' 100 0 50))
           \<lparr>queue_ahead := 0, executed := 680, executions := [(100, 680)]\<rparr>"
    using order_calls_invariant [OF qa vols, of 0 "''BTC-USD''" "''long''" 100 0 1]
    unfolding Let_def first
    by (simp add: numeral_2_eq_2 Order_init_def Order_size_def)
  have third: "do_order_calls (fst (Order_init 0 ''BTC-USD'' ''long'' 100 0 50))
        (take 3 [Reduce_queue_ahead 30, Reduce_queue_ahead 700, Process_executions 500])
       = (fst (Order_init 0 ''BTC-USD'' ''long'' 100 0 50))
           \<lparr>queue_ahead := 0, executed := 1000, executions := [(100, 1000)]\<rparr>"
    using order_calls_invariant [OF qa vols, of 0 "''BTC-USD''" "''long''" 100 0 2]
    unfolding Let_def second
    by (simp add: numeral_3_eq_3 numeral_2_eq_2 Order_init_def Order_size_def)
  show ?thesis
    unfolding first second third
    by (simp add: recorded_volume_def Order_init_def)
qed

section \<open>Properties of an inventory\<close>

subsection \<open>Cancelling the resting order\<close>

text \<open>
  C9. \<^verbatim>\<open>cancel_order\<close> returns \<^verbatim>\<open>False\<close> and changes nothing when no order rests.
  Otherwise it returns \<^verbatim>\<open>True\<close> and only empties the slot: the positions, the realized
  profit, the exposure and the trade count stay, so the volume the order had executed
  is booked nowhere, and the next \<^verbatim>\<open>step\<close> finds no order and reports no fill.
\<close>

theorem cancel_order_effect:
  "(order self = None \<longrightarrow> cancel_order self = (False, self))
   \<and> (order self \<noteq> None \<longrightarrow>
        fst (cancel_order self)
        \<and> snd (cancel_order self) = self\<lparr>order := None\<rparr>
        \<and> order (snd (cancel_order self)) = None
        \<and> positions (snd (cancel_order self)) = positions self
        \<and> realized_pnl (snd (cancel_order self)) = realized_pnl self
        \<and> total_exposure (snd (cancel_order self)) = total_exposure self
        \<and> total_trade_count (snd (cancel_order self)) = total_trade_count self
        \<and> PositionI_step bid_price ask_price buy_volume sell_volume stp (snd (cancel_order self))
            = Inr (False, snd (cancel_order self)))"
  by (auto simp: cancel_order_def PositionI_step_def split: option.splits)

text \<open>
  An inventory with one position and no order, and the same inventory with an order
  that has executed 400 of its lot.
\<close>

theorem cancel_order_effect_witness:
  "order (inventory_holding ''long'' 2 [filled_order ''long'' 100 100] None) = None
   \<and> cancel_order (inventory_holding ''long'' 2 [filled_order ''long'' 100 100] None)
       = (False, inventory_holding ''long'' 2 [filled_order ''long'' 100 100] None)
   \<and> order (inventory_holding ''long'' 2 [filled_order ''long'' 100 100]
         (Some ((filled_order ''long'' 99 (- 1))\<lparr>executed := 400, executions := [(99, 400)]\<rparr>)))
       \<noteq> None
   \<and> cancel_order (inventory_holding ''long'' 2 [filled_order ''long'' 100 100]
         (Some ((filled_order ''long'' 99 (- 1))\<lparr>executed := 400, executions := [(99, 400)]\<rparr>)))
       = (True, inventory_holding ''long'' 2 [filled_order ''long'' 100 100] None)
   \<and> PositionI_step 99 101 1000 1000 5
         (inventory_holding ''long'' 2 [filled_order ''long'' 100 100] None)
       = Inr (False, inventory_holding ''long'' 2 [filled_order ''long'' 100 100] None)"
  using
    cancel_order_effect [of "inventory_holding ''long'' 2 [filled_order ''long'' 100 100] None"]
    cancel_order_effect [of "inventory_holding ''long'' 2 [filled_order ''long'' 100 100]
         (Some ((filled_order ''long'' 99 (- 1))\<lparr>executed := 400, executions := [(99, 400)]\<rparr>))"
      99 101 1000 1000 5]
  by (simp add: inventory_holding_def cancel_order_def)

subsection \<open>Closing the oldest position\<close>

lemma remove_position_empty:
  "positions self = [] \<Longrightarrow> remove_position midpoint self = Inr (0, self)"
  by (simp add: remove_position_def)

lemma remove_position_Cons:
  assumes "positions self = ord # ps" and "price ord \<noteq> 0"
  shows "remove_position midpoint self =
     Inr (claimed_pnl (inventory_side self) midpoint ord,
       self\<lparr>positions := ps,
            realized_pnl := realized_pnl self + claimed_pnl (inventory_side self) midpoint ord,
            total_exposure := total_exposure self - average_exectution_price ord,
            average_price :=
              (if ps = [] then 0
               else (total_exposure self - average_exectution_price ord) / of_nat (length ps)),
            full_inventory := (max_position_count self \<le> int (length ps)),
            total_trade_count := total_trade_count self + 1\<rparr>)"
  using assms
  by (auto simp: remove_position_def py_truediv_def Let_def claimed_pnl_def)

lemma remove_position_zero_price:
  assumes "positions self = ord # ps" and "price ord = 0"
    and "inventory_side self = ''long'' \<or> inventory_side self = ''short''"
  shows "remove_position midpoint self = Inl ZeroDivisionError"
  using assms
  by (auto simp: remove_position_def py_truediv_def)

text \<open>
  C6. On an inventory that holds positions, \<^verbatim>\<open>remove_position\<close> takes the oldest one
  (the head of the list) and returns its profit: \<open>(reference - price) / price\<close> on the
  long side, \<open>(price - reference) / price\<close> on the short side. The profit is added to
  the realized profit, the position's average execution price leaves the exposure, the
  average price is the exposure over the new count (zero for no position), the flag is
  set from the new count and the trade count grows by one. On an empty inventory the
  call returns 0 and changes nothing. (The quotient exists for a position price other
  than zero; at zero the call raises \<^verbatim>\<open>ZeroDivisionError\<close>.)
\<close>

theorem remove_position_effect:
  "(positions self = [] \<longrightarrow> remove_position reference_price self = Inr (0, self))
   \<and> (positions self \<noteq> [] \<and> price (hd (positions self)) \<noteq> 0
        \<and> (inventory_side self = ''long'' \<or> inventory_side self = ''short'') \<longrightarrow>
       remove_position reference_price self =
         Inr ((if inventory_side self = ''long''
               then (reference_price - price (hd (positions self))) / price (hd (positions self))
               else (price (hd (positions self)) - reference_price) / price (hd (positions self))),
           self\<lparr>positions := tl (positions self),
                realized_pnl := realized_pnl self +
                  (if inventory_side self = ''long''
                   then (reference_price - price (hd (positions self))) / price (hd (positions self))
                   else (price (hd (positions self)) - reference_price) / price (hd (positions self))),
                total_exposure :=
                  total_exposure self - average_exectution_price (hd (positions self)),
                average_price :=
                  (if tl (positions self) = [] then 0
                   else (total_exposure self - average_exectution_price (hd (positions self)))
                          / of_nat (length (tl (positions self)))),
                full_inventory := (max_position_count self \<le> int (length (tl (positions self)))),
                total_trade_count := total_trade_count self + 1\<rparr>))
   \<and> (positions self \<noteq> [] \<and> price (hd (positions self)) = 0
        \<and> (inventory_side self = ''long'' \<or> inventory_side self = ''short'') \<longrightarrow>
       remove_position reference_price self = Inl ZeroDivisionError)"
proof (cases "positions self")
  case Nil
  then show ?thesis
    by (simp add: remove_position_empty)
next
  case (Cons ord ps)
  show ?thesis
  proof (cases "price ord = 0")
    case True
    with Cons show ?thesis
      by (auto simp: remove_position_zero_price)
  next
    case False
    with Cons show ?thesis
      by (auto simp: remove_position_Cons claimed_pnl_def)
  qed
qed

text \<open>
  A short inventory of capacity 2 that holds positions sold at 101 and at 102 closes
  the older one against 100 with profit \<open>1 / 101\<close>; an empty one returns 0.
\<close>

theorem remove_position_effect_witness:
  "positions (inventory_holding ''short'' 2 [] None) = []
   \<and> remove_position 100 (inventory_holding ''short'' 2 [] None)
       = Inr (0, inventory_holding ''short'' 2 [] None)
   \<and> positions (inventory_holding ''short'' 2
         [filled_order ''short'' 101 101, filled_order ''short'' 102 102] None) \<noteq> []
   \<and> remove_position 100 (inventory_holding ''short'' 2
         [filled_order ''short'' 101 101, filled_order ''short'' 102 102] None)
       = Inr (1 / 101,
           (inventory_holding ''short'' 2 [filled_order ''short'' 102 102] None)
             \<lparr>realized_pnl := 1 / 101, total_trade_count := 1\<rparr>)"
  using
    remove_position_effect [of "inventory_holding ''short'' 2 [] None" 100]
    remove_position_effect [of "inventory_holding ''short'' 2
         [filled_order ''short'' 101 101, filled_order ''short'' 102 102] None" 100]
  by (simp add: inventory_holding_def filled_order_def)

subsection \<open>Flattening\<close>

lemma flatten_loop_eq:
  assumes "positions self = ps" and "\<forall>ord \<in> set ps. price ord \<noteq> 0"
  shows "flatten_loop fee midpoint self =
     Inr (self\<lparr>positions := [],
            realized_pnl := realized_pnl self
              + sum_list (map (claimed_pnl (inventory_side self) midpoint) ps)
              - of_nat (length ps) * fee,
            total_exposure := total_exposure self - sum_list (map average_exectution_price ps),
            average_price := (if ps = [] then average_price self else 0),
            full_inventory :=
              (if ps = [] then full_inventory self else max_position_count self \<le> 0),
            total_trade_count := total_trade_count self + int (length ps)\<rparr>)"
  using assms
proof (induction ps arbitrary: self)
  case Nil
  then show ?case
    by (subst flatten_loop.simps) (simp add: position_count_def)
next
  case (Cons ord ps)
  define pnl where "pnl = claimed_pnl (inventory_side self) midpoint ord"
  define s1 where "s1 =
    self\<lparr>positions := ps,
         realized_pnl := realized_pnl self + pnl,
         total_exposure := total_exposure self - average_exectution_price ord,
         average_price :=
           (if ps = [] then 0
            else (total_exposure self - average_exectution_price ord) / of_nat (length ps)),
         full_inventory := (max_position_count self \<le> int (length ps)),
         total_trade_count := total_trade_count self + 1\<rparr>"
  define s2 where "s2 = s1\<lparr>realized_pnl := realized_pnl s1 - fee\<rparr>"
  have rm: "remove_position midpoint self = Inr (pnl, s1)"
    unfolding pnl_def s1_def using Cons.prems by (intro remove_position_Cons) simp_all
  have step: "flatten_loop fee midpoint self = flatten_loop fee midpoint s2"
    using Cons.prems(1) by (subst flatten_loop.simps) (simp add: position_count_def rm s2_def)
  have "positions s2 = ps"
    by (simp add: s2_def s1_def)
  moreover have "\<forall>ord \<in> set ps. price ord \<noteq> 0"
    using Cons.prems(2) by simp
  ultimately have rest: "flatten_loop fee midpoint s2 =
     Inr (s2\<lparr>positions := [],
            realized_pnl := realized_pnl s2
              + sum_list (map (claimed_pnl (inventory_side s2) midpoint) ps)
              - of_nat (length ps) * fee,
            total_exposure := total_exposure s2 - sum_list (map average_exectution_price ps),
            average_price := (if ps = [] then average_price s2 else 0),
            full_inventory :=
              (if ps = [] then full_inventory s2 else max_position_count s2 \<le> 0),
            total_trade_count := total_trade_count s2 + int (length ps)\<rparr>)"
    by (rule Cons.IH)
  show ?case
    unfolding step rest by (simp add: s2_def s1_def pnl_def algebra_simps)
qed

text \<open>
  C7. On an empty inventory \<^verbatim>\<open>flatten_inventory\<close> returns the fixed value
  \<open>-0.00000000001\<close> and changes nothing. On an inventory that holds \<open>n\<close> positions
  (none at price zero, where the division raises) it removes all of them, oldest first,
  charges the fee once for each, and returns the change of the realized profit: the sum
  of the profits of the positions less \<open>n\<close> times the fee.
\<close>

theorem flatten_inventory_effect:
  "(positions self = [] \<longrightarrow>
      flatten_inventory fee reference_price self = Inr (- (1 / 10 ^ 11), self))
   \<and> (positions self \<noteq> [] \<and> (\<forall>ord \<in> set (positions self). price ord \<noteq> 0) \<longrightarrow>
       flatten_inventory fee reference_price self =
         Inr (sum_list (map (claimed_pnl (inventory_side self) reference_price) (positions self))
                - of_nat (length (positions self)) * fee,
           self\<lparr>positions := [],
                realized_pnl := realized_pnl self
                  + sum_list (map (claimed_pnl (inventory_side self) reference_price) (positions self))
                  - of_nat (length (positions self)) * fee,
                total_exposure :=
                  total_exposure self - sum_list (map average_exectution_price (positions self)),
                average_price := 0,
                full_inventory := (max_position_count self \<le> 0),
                total_trade_count := total_trade_count self + int (length (positions self))\<rparr>))"
proof (cases "positions self = []")
  case True
  then show ?thesis
    by (simp add: flatten_inventory_def position_count_def)
next
  case False
  have "flatten_inventory fee reference_price self =
         Inr (sum_list (map (claimed_pnl (inventory_side self) reference_price) (positions self))
                - of_nat (length (positions self)) * fee,
           self\<lparr>positions := [],
                realized_pnl := realized_pnl self
                  + sum_list (map (claimed_pnl (inventory_side self) reference_price) (positions self))
                  - of_nat (length (positions self)) * fee,
                total_exposure :=
                  total_exposure self - sum_list (map average_exectution_price (positions self)),
                average_price := 0,
                full_inventory := (max_position_count self \<le> 0),
                total_trade_count := total_trade_count self + int (length (positions self))\<rparr>)"
    if nz: "\<forall>ord \<in> set (positions self). price ord \<noteq> 0"
    using False flatten_loop_eq [OF refl nz, of fee reference_price]
    by (simp add: flatten_inventory_def position_count_def)
  with False show ?thesis
    by simp
qed

text \<open>
  A long inventory bought at 100 and at 80 is flattened at 120 with fee \<open>1 / 1000\<close>:
  the profits are \<open>1 / 5\<close> and \<open>1 / 2\<close>, and two fees are charged.
\<close>

theorem flatten_inventory_effect_witness:
  "positions (inventory_holding ''long'' 2 [] None) = []
   \<and> flatten_inventory (1 / 1000) 120 (inventory_holding ''long'' 2 [] None)
       = Inr (- (1 / 10 ^ 11), inventory_holding ''long'' 2 [] None)
   \<and> positions (inventory_holding ''long'' 2
         [filled_order ''long'' 100 100, filled_order ''long'' 80 80] None) \<noteq> []
   \<and> price (filled_order ''long'' 100 100) \<noteq> 0 \<and> price (filled_order ''long'' 80 80) \<noteq> 0
   \<and> flatten_inventory (1 / 1000) 120 (inventory_holding ''long'' 2
         [filled_order ''long'' 100 100, filled_order ''long'' 80 80] None)
       = Inr (1 / 5 + 1 / 2 - 2 / 1000,
           (inventory_holding ''long'' 2 [] None)
             \<lparr>realized_pnl := 1 / 5 + 1 / 2 - 2 / 1000, total_trade_count := 2\<rparr>)"
  using
    flatten_inventory_effect [of "inventory_holding ''long'' 2 [] None" "1 / 1000" 120]
    flatten_inventory_effect [of "inventory_holding ''long'' 2
         [filled_order ''long'' 100 100, filled_order ''long'' 80 80] None" "1 / 1000" 120]
  by (simp add: inventory_holding_def filled_order_def claimed_pnl_def)

subsection \<open>Capacity\<close>

lemma PositionI_init_inv:
  "1 \<le> max_position \<Longrightarrow> PositionI_init sd max_position = Inr self \<Longrightarrow>
   inventory_inv self \<and> max_position_count self = max_position"
  by (auto simp: PositionI_init_def py_truediv_def inventory_inv_def position_count_def
      split: if_splits)

lemma add_order_inv:
  "inventory_inv self \<Longrightarrow> inventory_inv (snd (add_order ord self))"
  by (auto simp: add_order_def inventory_inv_def position_count_def split: option.splits)

lemma cancel_order_inv:
  "inventory_inv self \<Longrightarrow> inventory_inv (snd (cancel_order self))"
  by (auto simp: cancel_order_def inventory_inv_def position_count_def split: option.splits)

lemma PositionI_reset_inv:
  "inventory_inv self \<Longrightarrow> inventory_inv (PositionI_reset self)"
  by (auto simp: PositionI_reset_def inventory_inv_def position_count_def)

lemma PositionI_step_cases:
  assumes "PositionI_step bid_price ask_price buy_volume sell_volume stp self = Inr (filled, self')"
  obtains (idle) "order self = None" "\<not> filled" "self' = self"
    | (resting) cur where "order self = Some cur" "\<not> filled"
        "\<not> is_filled (apply_volume bid_price ask_price buy_volume sell_volume cur)"
        "self' = self\<lparr>order := Some (apply_volume bid_price ask_price buy_volume sell_volume cur)\<rparr>"
    | (fill) cur avg ord' where "order self = Some cur" "filled"
        "is_filled (apply_volume bid_price ask_price buy_volume sell_volume cur)"
        "get_average_execution_price (apply_volume bid_price ask_price buy_volume sell_volume cur)
           = Inr (avg, ord')"
        "self' = self\<lparr>positions := positions self @ [ord'],
                    total_exposure := total_exposure self + avg,
                    average_price :=
                      (total_exposure self + avg) / of_nat (length (positions self @ [ord'])),
                    full_inventory :=
                      (max_position_count self \<le> int (length (positions self @ [ord']))),
                    order := None\<rparr>"
proof (cases "order self")
  case None
  with assms have "\<not> filled" "self' = self"
    by (simp_all add: PositionI_step_def)
  with None show ?thesis
    by (rule idle)
next
  case (Some cur)
  show ?thesis
  proof (cases "is_filled (apply_volume bid_price ask_price buy_volume sell_volume cur)")
    case False
    with assms Some have "\<not> filled"
      "self' = self\<lparr>order := Some (apply_volume bid_price ask_price buy_volume sell_volume cur)\<rparr>"
      by (simp_all add: PositionI_step_def Let_def)
    with Some False show ?thesis
      by (intro resting)
  next
    case True
    with assms Some obtain avg ord' where
      avg: "get_average_execution_price (apply_volume bid_price ask_price buy_volume sell_volume cur)
         = Inr (avg, ord')"
      by (cases "get_average_execution_price
            (apply_volume bid_price ask_price buy_volume sell_volume cur)")
         (auto simp: PositionI_step_def Let_def)
    with assms Some True have "filled"
      "self' = self\<lparr>positions := positions self @ [ord'],
                    total_exposure := total_exposure self + avg,
                    average_price :=
                      (total_exposure self + avg) / of_nat (length (positions self @ [ord'])),
                    full_inventory :=
                      (max_position_count self \<le> int (length (positions self @ [ord']))),
                    order := None\<rparr>"
      by (simp_all add: PositionI_step_def Let_def)
    with Some True avg show ?thesis
      by (intro fill)
  qed
qed

lemma PositionI_step_inv:
  assumes "inventory_inv self"
    and "PositionI_step bid_price ask_price buy_volume sell_volume stp self = Inr (filled, self')"
  shows "inventory_inv self'"
  using assms(2)
proof (cases rule: PositionI_step_cases)
  case idle
  with assms(1) show ?thesis by simp
next
  case (resting cur)
  with assms(1) show ?thesis
    by (auto simp: inventory_inv_def position_count_def)
next
  case (fill cur avg ord')
  have "int (length (positions self)) < max_position_count self"
    using assms(1) fill(1) by (auto simp: inventory_inv_def position_count_def)
  with assms(1) fill(5) show ?thesis
    by (simp add: inventory_inv_def position_count_def)
qed

lemma pop_position_inv:
  "inventory_inv self \<Longrightarrow> inventory_inv (snd (pop_position self))"
  by (auto simp: pop_position_def Let_def inventory_inv_def position_count_def)

lemma remove_position_positions:
  assumes "remove_position midpoint self = Inr (pnl, self')"
  shows "positions self' = tl (positions self)
    \<and> max_position_count self' = max_position_count self
    \<and> inventory_side self' = inventory_side self
    \<and> reward_size self' = reward_size self
    \<and> order self' = order self
    \<and> (positions self \<noteq> [] \<longrightarrow>
          full_inventory self' = (max_position_count self \<le> int (length (tl (positions self)))))
    \<and> (positions self = [] \<longrightarrow> self' = self)"
proof (cases "positions self")
  case Nil
  with assms show ?thesis
    by (simp add: remove_position_def)
next
  case (Cons ord ps)
  show ?thesis
  proof (cases "inventory_side self = ''long''")
    case True
    with assms Cons show ?thesis
      by (auto simp: remove_position_def Let_def py_truediv_def split: if_splits)
  next
    case notlong: False
    show ?thesis
    proof (cases "inventory_side self = ''short''")
      case True
      with assms Cons notlong show ?thesis
        by (auto simp: remove_position_def Let_def py_truediv_def split: if_splits)
    next
      case False
      with assms Cons notlong show ?thesis
        by (auto simp: remove_position_def Let_def)
    qed
  qed
qed

lemma remove_position_inv:
  assumes "inventory_inv self" and "remove_position midpoint self = Inr (pnl, self')"
  shows "inventory_inv self'"
proof (cases "positions self = []")
  case True
  with assms remove_position_positions [OF assms(2)] show ?thesis
    by simp
next
  case False
  then have "int (length (tl (positions self))) < int (length (positions self))"
    by (cases "positions self") simp_all
  with assms(1) False remove_position_positions [OF assms(2)] show ?thesis
    by (auto simp: inventory_inv_def position_count_def)
qed

lemma realized_pnl_update_inv:
  "inventory_inv (self\<lparr>realized_pnl := r\<rparr>) = inventory_inv self"
  by (simp add: inventory_inv_def position_count_def)

lemma flatten_loop_inv:
  "inventory_inv self \<Longrightarrow> flatten_loop fee midpoint self = Inr self' \<Longrightarrow> inventory_inv self'"
proof (induction fee midpoint self rule: flatten_loop.induct)
  case (1 fee midpoint self)
  show ?case
  proof (cases "0 < position_count self")
    case False
    with "1.prems" show ?thesis
      by (subst (asm) flatten_loop.simps) simp
  next
    case True
    from "1.prems"(2) True obtain pnl s1 where
      rm: "remove_position midpoint self = Inr (pnl, s1)"
      and rest: "flatten_loop fee midpoint (s1\<lparr>realized_pnl := realized_pnl s1 - fee\<rparr>) = Inr self'"
      by (subst (asm) flatten_loop.simps) (auto split: sum.splits)
    have "inventory_inv (s1\<lparr>realized_pnl := realized_pnl s1 - fee\<rparr>)"
      using remove_position_inv [OF "1.prems"(1) rm] by (simp add: realized_pnl_update_inv)
    then show ?thesis
      using "1.IH" [OF True rm refl] rest by simp
  qed
qed

lemma flatten_inventory_inv:
  "inventory_inv self \<Longrightarrow> flatten_inventory fee midpoint self = Inr (pnl, self') \<Longrightarrow>
   inventory_inv self'"
  by (auto simp: flatten_inventory_def Let_def split: if_splits sum.splits
      dest: flatten_loop_inv)

lemma do_inventory_call_inv:
  assumes "inventory_inv self" and "do_inventory_call fee self c = Inr self'"
  shows "inventory_inv self'"
proof (cases c)
  case (Add_order ord)
  with assms show ?thesis by (auto simp: add_order_inv)
next
  case (Step b a bv sv st)
  with assms show ?thesis by (auto split: sum.splits dest: PositionI_step_inv)
next
  case Pop_position
  with assms show ?thesis by (auto simp: pop_position_inv)
next
  case (Remove_position m)
  with assms show ?thesis by (auto split: sum.splits dest: remove_position_inv)
next
  case (Flatten_inventory m)
  with assms show ?thesis by (auto split: sum.splits dest: flatten_inventory_inv)
next
  case Cancel_order
  with assms show ?thesis by (auto simp: cancel_order_inv)
next
  case Reset_inventory
  with assms show ?thesis by (auto simp: PositionI_reset_inv)
qed

lemma do_inventory_calls_inv:
  "inventory_inv self \<Longrightarrow> do_inventory_calls fee self cs = Inr self' \<Longrightarrow> inventory_inv self'"
proof (induction cs arbitrary: self)
  case Nil
  then show ?case by simp
next
  case (Cons c cs)
  from Cons.prems(2) obtain s1 where
    c: "do_inventory_call fee self c = Inr s1" and cs: "do_inventory_calls fee s1 cs = Inr self'"
    by (auto split: sum.splits)
  from do_inventory_call_inv [OF Cons.prems(1) c] cs show ?case
    by (rule Cons.IH)
qed

text \<open>No call changes the capacity, the side or the reward size of an inventory.\<close>

lemma flatten_loop_config:
  "flatten_loop fee midpoint self = Inr self' \<Longrightarrow>
   max_position_count self' = max_position_count self
   \<and> inventory_side self' = inventory_side self
   \<and> reward_size self' = reward_size self"
proof (induction fee midpoint self rule: flatten_loop.induct)
  case (1 fee midpoint self)
  show ?case
  proof (cases "0 < position_count self")
    case False
    with "1.prems" show ?thesis
      by (subst (asm) flatten_loop.simps) simp
  next
    case True
    from "1.prems" True obtain pnl s1 where
      rm: "remove_position midpoint self = Inr (pnl, s1)"
      and rest: "flatten_loop fee midpoint (s1\<lparr>realized_pnl := realized_pnl s1 - fee\<rparr>) = Inr self'"
      by (subst (asm) flatten_loop.simps) (auto split: sum.splits)
    from "1.IH" [OF True rm refl rest] remove_position_positions [OF rm]
    show ?thesis by simp
  qed
qed

lemma do_inventory_call_config:
  assumes "do_inventory_call fee self c = Inr self'"
  shows "max_position_count self' = max_position_count self
    \<and> inventory_side self' = inventory_side self
    \<and> reward_size self' = reward_size self"
proof (cases c)
  case (Step b a bv sv st)
  with assms obtain filled where "PositionI_step b a bv sv st self = Inr (filled, self')"
    by (auto split: sum.splits)
  then show ?thesis
    by (cases rule: PositionI_step_cases) simp_all
next
  case (Remove_position m)
  with assms show ?thesis
    by (auto split: sum.splits dest: remove_position_positions)
next
  case (Flatten_inventory m)
  with assms show ?thesis
    by (auto simp: flatten_inventory_def Let_def split: sum.splits if_splits
        dest: flatten_loop_config)
qed (use assms in \<open>auto simp: add_order_def pop_position_def Let_def cancel_order_def
      PositionI_reset_def split: option.splits if_splits\<close>)

lemma do_inventory_calls_config:
  "do_inventory_calls fee self cs = Inr self' \<Longrightarrow>
   max_position_count self' = max_position_count self
   \<and> inventory_side self' = inventory_side self
   \<and> reward_size self' = reward_size self"
proof (induction cs arbitrary: self)
  case Nil
  then show ?case by simp
next
  case (Cons c cs)
  from Cons.prems obtain s1 where
    c: "do_inventory_call fee self c = Inr s1" and cs: "do_inventory_calls fee s1 cs = Inr self'"
    by (auto split: sum.splits)
  from Cons.IH [OF cs] do_inventory_call_config [OF c] show ?case
    by simp
qed

text \<open>
  C8. An inventory is created with a capacity of at least one (the constructor raises
  at zero) and receives any calls of \<^verbatim>\<open>add_order\<close>, \<^verbatim>\<open>step\<close>, \<^verbatim>\<open>pop_position\<close>,
  \<^verbatim>\<open>remove_position\<close>, \<^verbatim>\<open>flatten_inventory\<close>, \<^verbatim>\<open>cancel_order\<close> and \<^verbatim>\<open>reset\<close>. After
  each call that returns (after the first \<open>n\<close> calls, for every \<open>n\<close>) the count of
  positions is at most the capacity, the flag \<^verbatim>\<open>full_inventory\<close> says whether the count
  has reached the capacity, and at most one order rests, which it does only while the
  inventory is not full.
\<close>

theorem inventory_calls_invariant:
  assumes "PositionI_init sd max_position = Inr self0" and "1 \<le> max_position"
    and "do_inventory_calls fee self0 (take n cs) = Inr self"
  shows "int (position_count self) \<le> max_position
    \<and> full_inventory self = (int (position_count self) \<ge> max_position)
    \<and> length (active_orders self) \<le> 1
    \<and> (full_inventory self \<longrightarrow> active_orders self = [])"
proof -
  have "inventory_inv self0" and m0: "max_position_count self0 = max_position"
    using PositionI_init_inv [OF assms(2,1)] by simp_all
  then have "inventory_inv self"
    using assms(3) by (blast intro: do_inventory_calls_inv)
  moreover have "max_position_count self = max_position"
    using do_inventory_calls_config [OF assms(3)] m0 by simp
  ultimately show ?thesis
    by (auto simp: inventory_inv_def active_orders_def split: option.splits)
qed

text \<open>
  Capacity 1: an order at 100 is placed and filled, a second order is refused, the
  position is closed at 105, and a last order is taken again.
\<close>

theorem inventory_calls_invariant_witness:
  "PositionI_init ''long'' 1 = Inr (inventory_holding ''long'' 1 [] None)
   \<and> (1::int) \<le> 1
   \<and> do_inventory_calls (1 / 1000) (inventory_holding ''long'' 1 [] None)
        (take 5 [Add_order (fst (Order_init 0 ''BTC-USD'' ''long'' 100 0 0)),
                 Step 100 101 1000 0 1,
                 Add_order (fst (Order_init 1 ''BTC-USD'' ''long'' 99 1 0)),
                 Remove_position 105,
                 Add_order (fst (Order_init 2 ''BTC-USD'' ''long'' 98 2 50))])
       = Inr ((inventory_holding ''long'' 1 []
                (Some (fst (Order_init 2 ''BTC-USD'' ''long'' 98 2 50))))
               \<lparr>realized_pnl := 1 / 20, total_trade_count := 1\<rparr>)
   \<and> int (position_count ((inventory_holding ''long'' 1 []
                (Some (fst (Order_init 2 ''BTC-USD'' ''long'' 98 2 50))))
               \<lparr>realized_pnl := 1 / 20, total_trade_count := 1\<rparr>)) \<le> 1
   \<and> \<not> full_inventory ((inventory_holding ''long'' 1 []
                (Some (fst (Order_init 2 ''BTC-USD'' ''long'' 98 2 50))))
               \<lparr>realized_pnl := 1 / 20, total_trade_count := 1\<rparr>)"
proof -
  have init: "PositionI_init ''long'' 1 = Inr (inventory_holding ''long'' 1 [] None)"
    by (simp add: PositionI_init_def py_truediv_def inventory_holding_def)
  have cap: "(1::int) \<le> 1"
    by simp
  have run: "do_inventory_calls (1 / 1000) (inventory_holding ''long'' 1 [] None)
        (take 5 [Add_order (fst (Order_init 0 ''BTC-USD'' ''long'' 100 0 0)),
                 Step 100 101 1000 0 1,
                 Add_order (fst (Order_init 1 ''BTC-USD'' ''long'' 99 1 0)),
                 Remove_position 105,
                 Add_order (fst (Order_init 2 ''BTC-USD'' ''long'' 98 2 50))])
       = Inr ((inventory_holding ''long'' 1 []
                (Some (fst (Order_init 2 ''BTC-USD'' ''long'' 98 2 50))))
               \<lparr>realized_pnl := 1 / 20, total_trade_count := 1\<rparr>)"
    by (simp add: inventory_holding_def Order_init_def add_order_def PositionI_step_def
        apply_volume_def is_first_in_queue_def process_executions_def is_filled_def
        Order_size_def Let_def get_average_execution_price_def py_truediv_def py_round4_def
        round_half_even_def remove_position_def)
  show ?thesis
    using inventory_calls_invariant [OF init cap run]
    by (intro conjI init cap run) (simp_all add: inventory_holding_def position_count_def)
qed

section \<open>Amending the resting order\<close>

lemma get_average_execution_price_eq:
  "get_average_execution_price ord =
     (if (\<forall>(k, v) \<in> set (executions ord). k \<noteq> 0)
         \<and> (executions ord = [] \<or> sum_list (map (\<lambda>(k, v). v / k) (executions ord)) \<noteq> 0)
      then Inr (py_round4 (sum_list (map (\<lambda>(k, v). k * (v / k)) (executions ord))
                  / sum_list (map (\<lambda>(k, v). v / k) (executions ord))),
             ord\<lparr>average_exectution_price :=
                   py_round4 (sum_list (map (\<lambda>(k, v). k * (v / k)) (executions ord))
                     / sum_list (map (\<lambda>(k, v). v / k) (executions ord)))\<rparr>)
      else Inl ZeroDivisionError)"
  by (simp add: get_average_execution_price_def total_volume_loop_eq average_price_loop_eq)

lemma process_executions_fill:
  assumes "Order_size \<le> executed ord + v"
  shows "process_executions v ord =
     ord\<lparr>executed := Order_size,
         executions := executions_add (price ord) (Order_size - executed ord) (executions ord)\<rparr>"
  using assms by (simp add: process_executions_def is_filled_def Let_def)

lemma executions_add_not_Nil: "executions_add k v kvs \<noteq> []"
  by (cases kvs) (auto split: if_splits)

lemma queued_volume_fill:
  assumes "0 \<le> queue_ahead ord" and "executed ord < Order_size"
    and "Order_size - executed ord \<le> volume - queue_ahead ord"
  shows "(if is_first_in_queue ord then process_executions volume ord
          else reduce_queue_ahead volume ord) =
     ord\<lparr>queue_ahead := 0, executed := Order_size,
         executions := executions_add (price ord) (Order_size - executed ord) (executions ord)\<rparr>"
proof (cases "queue_ahead ord = 0")
  case True
  with assms show ?thesis
    by (simp add: is_first_in_queue_def process_executions_fill)
next
  case False
  with assms have "\<not> is_first_in_queue ord" and "queue_ahead ord - volume < 0"
    by (simp_all add: is_first_in_queue_def)
  moreover have "Order_size \<le> executed (ord\<lparr>queue_ahead := 0\<rparr>) + (volume - queue_ahead ord)"
    using assms(3) by simp
  ultimately show ?thesis
    by (simp add: reduce_queue_ahead_def Let_def process_executions_fill)
qed

lemma apply_volume_fill:
  assumes "0 \<le> queue_ahead ord" and "executed ord < Order_size"
    and "side ord = ''long'' \<and> bid_price \<le> price ord
           \<and> Order_size - executed ord \<le> buy_volume - queue_ahead ord
         \<or> side ord = ''short'' \<and> price ord \<le> ask_price
           \<and> Order_size - executed ord \<le> sell_volume - queue_ahead ord"
  shows "apply_volume bid_price ask_price buy_volume sell_volume ord =
     ord\<lparr>queue_ahead := 0, executed := Order_size,
         executions := executions_add (price ord) (Order_size - executed ord) (executions ord)\<rparr>"
  using assms(3)
proof
  assume "side ord = ''long'' \<and> bid_price \<le> price ord
           \<and> Order_size - executed ord \<le> buy_volume - queue_ahead ord"
  then show ?thesis
    using queued_volume_fill [OF assms(1,2), of buy_volume]
    by (simp add: apply_volume_def)
next
  assume "side ord = ''short'' \<and> price ord \<le> ask_price
           \<and> Order_size - executed ord \<le> sell_volume - queue_ahead ord"
  then show ?thesis
    using queued_volume_fill [OF assms(1,2), of sell_volume]
    by (simp add: apply_volume_def)
qed

text \<open>
  C4. An inventory that is not full and has a resting order takes a new order by
  writing the new price, queue and id into the resting order; \<^verbatim>\<open>add_order\<close> returns
  \<^verbatim>\<open>True\<close>, and the executed volume, the \<^verbatim>\<open>executions\<close> dict and every other field of
  the resting order stay. So when an order that is partly executed is amended and then
  filled in the next step (a long order by the bought volume once the bid is at its
  price, a short order by the sold volume once the ask is), the rest of the lot is
  recorded at the new price next to the earlier fills, and the average execution price
  of the position is the weighted average over all of them: \<open>avg\<close> below, over the
  dict \<open>ex\<close> after the last fill.
\<close>

theorem add_order_amends_in_place:
  assumes "\<not> full_inventory self" and "order self = Some cur"
  shows "add_order new_order self =
       (True, self\<lparr>order := Some (cur\<lparr>price := price new_order,
                                       queue_ahead := queue_ahead new_order,
                                       order_id := order_id new_order\<rparr>)\<rparr>)
    \<and> executed (the (order (snd (add_order new_order self)))) = executed cur
    \<and> executions (the (order (snd (add_order new_order self)))) = executions cur
    \<and> (executed cur < Order_size \<and> 0 \<le> queue_ahead new_order
         \<and> (side cur = ''long'' \<and> bid_price \<le> price new_order
               \<and> Order_size - executed cur \<le> buy_volume - queue_ahead new_order
             \<or> side cur = ''short'' \<and> price new_order \<le> ask_price
               \<and> Order_size - executed cur \<le> sell_volume - queue_ahead new_order) \<longrightarrow>
        PositionI_step bid_price ask_price buy_volume sell_volume stp (snd (add_order new_order self)) =
          (let ex = executions_add (price new_order) (Order_size - executed cur) (executions cur);
               w = map (\<lambda>(price_i, volume_i). volume_i / price_i) ex;
               total_w = sum_list w;
               avg = py_round4
                 (sum_list (map (\<lambda>(price_i, volume_i). price_i * (volume_i / price_i)) ex) / total_w)
           in if (\<forall>(price_i, volume_i) \<in> set ex. price_i \<noteq> 0) \<and> total_w \<noteq> 0
              then Inr (True,
                     self\<lparr>positions := positions self @
                            [cur\<lparr>price := price new_order, queue_ahead := 0,
                                 order_id := order_id new_order, executed := Order_size,
                                 executions := ex, average_exectution_price := avg\<rparr>],
                          total_exposure := total_exposure self + avg,
                          average_price :=
                            (total_exposure self + avg) / of_nat (length (positions self) + 1),
                          full_inventory :=
                            (max_position_count self \<le> int (length (positions self) + 1)),
                          order := None\<rparr>)
              else Inl ZeroDivisionError))"
proof -
  define amended where "amended =
    cur\<lparr>price := price new_order, queue_ahead := queue_ahead new_order,
        order_id := order_id new_order\<rparr>"
  have add: "add_order new_order self = (True, self\<lparr>order := Some amended\<rparr>)"
    using assms by (simp add: add_order_def amended_def)
  have fill: "PositionI_step bid_price ask_price buy_volume sell_volume stp (self\<lparr>order := Some amended\<rparr>) =
          (let ex = executions_add (price new_order) (Order_size - executed cur) (executions cur);
               w = map (\<lambda>(price_i, volume_i). volume_i / price_i) ex;
               total_w = sum_list w;
               avg = py_round4
                 (sum_list (map (\<lambda>(price_i, volume_i). price_i * (volume_i / price_i)) ex) / total_w)
           in if (\<forall>(price_i, volume_i) \<in> set ex. price_i \<noteq> 0) \<and> total_w \<noteq> 0
              then Inr (True,
                     self\<lparr>positions := positions self @
                            [cur\<lparr>price := price new_order, queue_ahead := 0,
                                 order_id := order_id new_order, executed := Order_size,
                                 executions := ex, average_exectution_price := avg\<rparr>],
                          total_exposure := total_exposure self + avg,
                          average_price :=
                            (total_exposure self + avg) / of_nat (length (positions self) + 1),
                          full_inventory :=
                            (max_position_count self \<le> int (length (positions self) + 1)),
                          order := None\<rparr>)
              else Inl ZeroDivisionError)"
    if part: "executed cur < Order_size" and qa: "0 \<le> queue_ahead new_order"
      and vol: "side cur = ''long'' \<and> bid_price \<le> price new_order
               \<and> Order_size - executed cur \<le> buy_volume - queue_ahead new_order
             \<or> side cur = ''short'' \<and> price new_order \<le> ask_price
               \<and> Order_size - executed cur \<le> sell_volume - queue_ahead new_order"
  proof -
    have "apply_volume bid_price ask_price buy_volume sell_volume amended =
        amended\<lparr>queue_ahead := 0, executed := Order_size,
          executions := executions_add (price amended) (Order_size - executed amended)
            (executions amended)\<rparr>"
      using part qa vol by (intro apply_volume_fill) (simp_all add: amended_def)
    then have av: "apply_volume bid_price ask_price buy_volume sell_volume amended =
        cur\<lparr>price := price new_order, queue_ahead := 0, order_id := order_id new_order,
            executed := Order_size,
            executions := executions_add (price new_order) (Order_size - executed cur)
              (executions cur)\<rparr>"
      by (simp add: amended_def)
    show ?thesis
      by (simp add: PositionI_step_def av is_filled_def get_average_execution_price_eq
          executions_add_not_Nil Let_def)
  qed
  show ?thesis
    unfolding add using fill by (simp add: amended_def)
qed

text \<open>
  A long order at 100 has executed 400 of its lot; it is amended to 200 and the next
  step brings 600: the position holds both fills and its average price is 142.8571,
  not 200.
\<close>

theorem add_order_amends_in_place_witness:
  "\<not> full_inventory (inventory_holding ''long'' 1 []
        (Some ((fst (Order_init 0 ''BTC-USD'' ''long'' 100 0 0))
                 \<lparr>executed := 400, executions := [(100, 400)]\<rparr>)))
   \<and> add_order (fst (Order_init 1 ''BTC-USD'' ''long'' 200 1 0))
        (inventory_holding ''long'' 1 []
          (Some ((fst (Order_init 0 ''BTC-USD'' ''long'' 100 0 0))
                   \<lparr>executed := 400, executions := [(100, 400)]\<rparr>)))
       = (True, inventory_holding ''long'' 1 []
            (Some \<lparr>ccy = ''BTC-USD'', side = ''long'', price = 200, step = 0, executed = 400,
                   order_id = 2, queue_ahead = 0, executions = [(100, 400)],
                   average_exectution_price = - 1\<rparr>))
   \<and> PositionI_step 200 201 600 0 2
        (snd (add_order (fst (Order_init 1 ''BTC-USD'' ''long'' 200 1 0))
          (inventory_holding ''long'' 1 []
            (Some ((fst (Order_init 0 ''BTC-USD'' ''long'' 100 0 0))
                     \<lparr>executed := 400, executions := [(100, 400)]\<rparr>)))))
       = Inr (True, inventory_holding ''long'' 1
            [\<lparr>ccy = ''BTC-USD'', side = ''long'', price = 200, step = 0, executed = 1000,
              order_id = 2, queue_ahead = 0, executions = [(100, 400), (200, 600)],
              average_exectution_price = 1428571 / 10000\<rparr>] None)"
  using add_order_amends_in_place
    [of "inventory_holding ''long'' 1 []
          (Some ((fst (Order_init 0 ''BTC-USD'' ''long'' 100 0 0))
                   \<lparr>executed := 400, executions := [(100, 400)]\<rparr>))"
        "(fst (Order_init 0 ''BTC-USD'' ''long'' 100 0 0))
                   \<lparr>executed := 400, executions := [(100, 400)]\<rparr>"
        "fst (Order_init 1 ''BTC-USD'' ''long'' 200 1 0)" 200 600 201 0 2]
  by (simp add: inventory_holding_def Order_init_def Order_size_def py_round4_def
      round_half_even_def Let_def add_order_def)

section \<open>Reset and the order counter\<close>

lemma do_calls_Order_id:
  "Order_id (foldl do_call p cs) = Order_id p + int (length (filter (\<lambda>c. c \<noteq> Reset) cs))"
proof (induction cs arbitrary: p)
  case Nil
  show ?case by simp
next
  case (Cons c cs)
  have "Order_id (do_call p c) = Order_id p + (if c \<noteq> Reset then 1 else 0)"
    by (cases c) (simp_all add: Order_init_def)
  with Cons.IH [of "do_call p c"] show ?case
    by simp
qed

text \<open>
  C10. \<^verbatim>\<open>PositionI.reset\<close> empties the positions and the order slot, sets the realized
  and the unrealized profit, the exposure, the average price and the trade count to
  zero and the flag to \<^verbatim>\<open>False\<close>; capacity, side and reward size are left as they are,
  so after any calls on an inventory the reset gives back the state the constructor
  made. \<^verbatim>\<open>Broker.reset\<close> resets both inventories. Neither touches \<^verbatim>\<open>Order._id\<close>: over
  any sequence of order placements and resets the counter grows by one for each order
  built and never falls, and the first order after a reset takes the next id.
\<close>

theorem reset_restores_initial_state:
  assumes "PositionI_init sd max_position = Inr self0"
    and "do_inventory_calls fee self0 cs = Inr self"
  shows "PositionI_reset self = self0
    \<and> positions (PositionI_reset self) = [] \<and> order (PositionI_reset self) = None
    \<and> realized_pnl (PositionI_reset self) = 0 \<and> unrealized_pnl (PositionI_reset self) = 0
    \<and> total_exposure (PositionI_reset self) = 0 \<and> average_price (PositionI_reset self) = 0
    \<and> total_trade_count (PositionI_reset self) = 0 \<and> \<not> full_inventory (PositionI_reset self)
    \<and> long_inventory (Broker_reset b) = PositionI_reset (long_inventory b)
    \<and> short_inventory (Broker_reset b) = PositionI_reset (short_inventory b)
    \<and> broker (do_call p Reset) = Broker_reset (broker p)
    \<and> Order_id (do_call p Reset) = Order_id p
    \<and> order_id (fst (Order_init (Order_id (do_call p Reset)) c sd' pr st qa)) = Order_id p + 1
    \<and> Order_id (do_calls p calls) = Order_id p + int (length (filter (\<lambda>c. c \<noteq> Reset) calls))
    \<and> Order_id p \<le> Order_id (do_calls p calls)"
proof -
  have config: "max_position_count self = max_position_count self0
      \<and> inventory_side self = inventory_side self0 \<and> reward_size self = reward_size self0"
    using assms(2) by (rule do_inventory_calls_config)
  have "PositionI_reset self0 = self0"
    using assms(1)
    by (auto simp: PositionI_init_def PositionI_reset_def py_truediv_def split: if_splits)
  moreover have "PositionI_reset self = PositionI_reset self0"
    using config by (simp add: PositionI_reset_def)
  ultimately have restored: "PositionI_reset self = self0"
    by simp
  have fields: "positions (PositionI_reset self) = [] \<and> order (PositionI_reset self) = None
    \<and> realized_pnl (PositionI_reset self) = 0 \<and> unrealized_pnl (PositionI_reset self) = 0
    \<and> total_exposure (PositionI_reset self) = 0 \<and> average_price (PositionI_reset self) = 0
    \<and> total_trade_count (PositionI_reset self) = 0 \<and> \<not> full_inventory (PositionI_reset self)"
    by (simp add: PositionI_reset_def)
  have both: "long_inventory (Broker_reset b) = PositionI_reset (long_inventory b)
    \<and> short_inventory (Broker_reset b) = PositionI_reset (short_inventory b)"
    by (simp add: Broker_reset_def)
  have counter: "broker (do_call p Reset) = Broker_reset (broker p)
    \<and> Order_id (do_call p Reset) = Order_id p
    \<and> order_id (fst (Order_init (Order_id (do_call p Reset)) c sd' pr st qa)) = Order_id p + 1"
    by (simp add: Order_init_def)
  have run: "Order_id (do_calls p calls) = Order_id p + int (length (filter (\<lambda>c. c \<noteq> Reset) calls))"
    unfolding do_calls_def by (rule do_calls_Order_id)
  then have "Order_id p \<le> Order_id (do_calls p calls)"
    by simp
  with restored fields both counter run show ?thesis
    by blast
qed

text \<open>
  An inventory of capacity 1 fills an order and is reset. A process whose counter is
  at 7 places an order, resets the broker and places another order: the counter is at
  9, and the order built after the reset has id 9.
\<close>

theorem reset_restores_initial_state_witness:
  "PositionI_init ''long'' 1 = Inr (inventory_holding ''long'' 1 [] None)
   \<and> do_inventory_calls (1 / 1000) (inventory_holding ''long'' 1 [] None)
        [Add_order (fst (Order_init 0 ''BTC-USD'' ''long'' 100 0 0)), Step 100 101 1000 0 1]
       = Inr (inventory_holding ''long'' 1 [filled_order ''long'' 100 100] None)
   \<and> PositionI_reset (inventory_holding ''long'' 1 [filled_order ''long'' 100 100] None)
       = inventory_holding ''long'' 1 [] None
   \<and> Order_id (do_calls
        \<lparr>Order_id = 7,
         broker = \<lparr>long_inventory = inventory_holding ''long'' 1 [] None,
                   short_inventory = inventory_holding ''short'' 1 [] None\<rparr>\<rparr>
        [Place ''BTC-USD'' ''long'' 100 0 0, Reset, Place ''BTC-USD'' ''short'' 101 1 0]) = 9
   \<and> order_id (fst (Order_init (Order_id (do_calls
        \<lparr>Order_id = 7,
         broker = \<lparr>long_inventory = inventory_holding ''long'' 1 [] None,
                   short_inventory = inventory_holding ''short'' 1 [] None\<rparr>\<rparr>
        [Place ''BTC-USD'' ''long'' 100 0 0, Reset])) ''BTC-USD'' ''short'' 101 1 0)) = 9"
proof -
  have init: "PositionI_init ''long'' 1 = Inr (inventory_holding ''long'' 1 [] None)"
    by (simp add: PositionI_init_def py_truediv_def inventory_holding_def)
  have run: "do_inventory_calls (1 / 1000) (inventory_holding ''long'' 1 [] None)
        [Add_order (fst (Order_init 0 ''BTC-USD'' ''long'' 100 0 0)), Step 100 101 1000 0 1]
       = Inr (inventory_holding ''long'' 1 [filled_order ''long'' 100 100] None)"
    by (simp add: inventory_holding_def filled_order_def Order_init_def add_order_def
        PositionI_step_def apply_volume_def is_first_in_queue_def process_executions_def
        is_filled_def Order_size_def Let_def get_average_execution_price_def py_truediv_def
        py_round4_def round_half_even_def)
  note th = reset_restores_initial_state [OF init run,
      where p = "\<lparr>Order_id = 7,
         broker = \<lparr>long_inventory = inventory_holding ''long'' 1 [] None,
                   short_inventory = inventory_holding ''short'' 1 [] None\<rparr>\<rparr>"
      and calls = "[Place ''BTC-USD'' ''long'' 100 0 0, Reset, Place ''BTC-USD'' ''short'' 101 1 0]"]
  show ?thesis
    using th
    by (intro conjI init run) (simp_all add: do_calls_def Order_init_def)
qed

section \<open>Netting in the broker\<close>

lemma PositionI_step_no_fill_frame:
  assumes "PositionI_step bid_price ask_price buy_volume sell_volume stp self = Inr (False, self')"
    and "order other = order self"
  shows "PositionI_step bid_price ask_price buy_volume sell_volume stp other
    = Inr (False, other\<lparr>order := order self'\<rparr>)"
  using assms(1)
proof (cases rule: PositionI_step_cases)
  case idle
  with assms(2) show ?thesis
    by (simp add: PositionI_step_def)
next
  case (resting cur)
  with assms(2) show ?thesis
    by (simp add: PositionI_step_def Let_def)
next
  case (fill cur avg ord')
  then show ?thesis
    by simp
qed

lemma pop_position_snoc:
  assumes "positions self = ps @ [position]"
  shows "pop_position self =
     (Some position,
      self\<lparr>positions := ps,
           total_exposure := total_exposure self - average_exectution_price position,
           average_price :=
             (if ps = [] then 0
              else (total_exposure self - average_exectution_price position) / of_nat (length ps)),
           full_inventory := (max_position_count self \<le> int (length ps))\<rparr>)"
  using assms by (simp add: pop_position_def position_count_def Let_def)

text \<open>
  C1, as the code has it. The short inventory holds a position, the order of the long
  inventory is filled in this call of \<^verbatim>\<open>Broker.step\<close>, and the step of the short
  inventory reports no fill in the same call. Then the position just appended to the
  long inventory is popped again, so the long positions are as before; the oldest short
  position is closed with the price of the popped long position as the reference, so
  the short count falls by one; and \<^verbatim>\<open>Broker.step\<close> returns the profit of the short
  position, \<open>(short_position_price - long_fill_price) / short_position_price\<close>, divided
  by the reward scale. (The prices and the fee are taken to be other than zero, for
  the divisions to have a value.)
\<close>

theorem broker_step_nets_long_fill:
  assumes long_fill:
      "PositionI_step bid_price ask_price buy_volume sell_volume stp (long_inventory self)
         = Inr (True, li)"
    and short_held: "positions (short_inventory self) = sp # sps"
    and short_no_fill:
      "PositionI_step bid_price ask_price buy_volume sell_volume stp (short_inventory self)
         = Inr (False, si)"
    and short_side: "inventory_side (short_inventory self) = ''short''"
    and price_nz: "price sp \<noteq> 0" and fee_nz: "fee \<noteq> 0"
  shows "\<exists>self'.
      Broker_step fee bid_price ask_price buy_volume sell_volume stp self
        = Inr ((price sp - price (last (positions li))) / price sp / reward_scale fee, self')
      \<and> position_count li = position_count (long_inventory self) + 1
      \<and> positions (long_inventory self') = positions (long_inventory self)
      \<and> position_count (long_inventory self') = position_count (long_inventory self)
      \<and> positions (short_inventory self') = sps
      \<and> position_count (short_inventory self') + 1 = position_count (short_inventory self)
      \<and> realized_pnl (short_inventory self')
          = realized_pnl (short_inventory self)
            + (price sp - price (last (positions li))) / price sp
      \<and> total_trade_count (short_inventory self')
          = total_trade_count (short_inventory self) + 1
      \<and> order (long_inventory self') = None
      \<and> order (short_inventory self') = order si"
proof -
  from long_fill obtain filled_position where
    li_positions: "positions li = positions (long_inventory self) @ [filled_position]"
    and li_order: "order li = None"
    by (cases rule: PositionI_step_cases) simp_all
  define li' where "li' = snd (pop_position li)"
  have pop: "pop_position li = (Some filled_position, li')"
    and li'_positions: "positions li' = positions (long_inventory self)"
    and li'_order: "order li' = None"
    unfolding li'_def using li_order by (simp_all add: pop_position_snoc [OF li_positions])
  define pnl where "pnl = (price sp - price filled_position) / price sp"
  define si1 where "si1 =
    (short_inventory self)\<lparr>positions := sps,
      realized_pnl := realized_pnl (short_inventory self) + pnl,
      total_exposure := total_exposure (short_inventory self) - average_exectution_price sp,
      average_price :=
        (if sps = [] then 0
         else (total_exposure (short_inventory self) - average_exectution_price sp)
                / of_nat (length sps)),
      full_inventory := (max_position_count (short_inventory self) \<le> int (length sps)),
      total_trade_count := total_trade_count (short_inventory self) + 1\<rparr>"
  have remove: "remove_position (price filled_position) (short_inventory self) = Inr (pnl, si1)"
    using remove_position_Cons [OF short_held price_nz, of "price filled_position"] short_side
    by (simp add: claimed_pnl_def pnl_def si1_def)
  have net1: "net_inventory True li (short_inventory self) = Inr (pnl, li', si1)"
    using short_held by (simp add: net_inventory_def position_count_def pop remove)
  have "order si1 = order (short_inventory self)"
    by (simp add: si1_def)
  then have short_step:
    "PositionI_step bid_price ask_price buy_volume sell_volume stp si1
       = Inr (False, si1\<lparr>order := order si\<rparr>)"
    by (rule PositionI_step_no_fill_frame [OF short_no_fill])
  have net2: "net_inventory False (si1\<lparr>order := order si\<rparr>) li'
      = Inr (0, si1\<lparr>order := order si\<rparr>, li')"
    by (simp add: net_inventory_def)
  have scale: "reward_scale fee \<noteq> 0"
    using fee_nz by (simp add: reward_scale_def)
  have result: "Broker_step fee bid_price ask_price buy_volume sell_volume stp self
      = Inr (pnl / reward_scale fee,
          \<lparr>long_inventory = li', short_inventory = si1\<lparr>order := order si\<rparr>\<rparr>)"
    using scale
    by (simp add: Broker_step_def long_fill net1 short_step net2 py_truediv_def)
  have last: "last (positions li) = filled_position"
    by (simp add: li_positions)
  show ?thesis
    unfolding last
    by (rule exI [of _ "\<lparr>long_inventory = li', short_inventory = si1\<lparr>order := order si\<rparr>\<rparr>"])
       (simp add: result pnl_def li'_positions li'_order position_count_def li_positions
          short_held si1_def)
qed

text \<open>
  Capacity 2, fee \<open>1 / 1000\<close>. The short inventory holds a position sold at 101 and
  has no order; the long order at 100 is filled by a volume of 1000. The long position
  is popped again, the short position is closed with profit \<open>1 / 101\<close>, and the step
  returns \<open>500 / 101\<close>.
\<close>

theorem broker_step_nets_long_fill_witness:
  "PositionI_step 100 102 1000 1000 1
      (long_inventory
        \<lparr>long_inventory = inventory_holding ''long'' 2 []
           (Some (fst (Order_init 0 ''BTC-USD'' ''long'' 100 0 0))),
         short_inventory = inventory_holding ''short'' 2 [filled_order ''short'' 101 101] None\<rparr>)
     = Inr (True, inventory_holding ''long'' 2 [filled_order ''long'' 100 100] None)
   \<and> positions (short_inventory
        \<lparr>long_inventory = inventory_holding ''long'' 2 []
           (Some (fst (Order_init 0 ''BTC-USD'' ''long'' 100 0 0))),
         short_inventory = inventory_holding ''short'' 2 [filled_order ''short'' 101 101] None\<rparr>)
     = [filled_order ''short'' 101 101]
   \<and> PositionI_step 100 102 1000 1000 1
      (short_inventory
        \<lparr>long_inventory = inventory_holding ''long'' 2 []
           (Some (fst (Order_init 0 ''BTC-USD'' ''long'' 100 0 0))),
         short_inventory = inventory_holding ''short'' 2 [filled_order ''short'' 101 101] None\<rparr>)
     = Inr (False, inventory_holding ''short'' 2 [filled_order ''short'' 101 101] None)
   \<and> Broker_step (1 / 1000) 100 102 1000 1000 1
        \<lparr>long_inventory = inventory_holding ''long'' 2 []
           (Some (fst (Order_init 0 ''BTC-USD'' ''long'' 100 0 0))),
         short_inventory = inventory_holding ''short'' 2 [filled_order ''short'' 101 101] None\<rparr>
     = Inr (500 / 101,
         \<lparr>long_inventory = inventory_holding ''long'' 2 [] None,
          short_inventory = (inventory_holding ''short'' 2 [] None)
            \<lparr>realized_pnl := 1 / 101, total_trade_count := 1\<rparr>\<rparr>)"
proof -
  have long_fill: "PositionI_step 100 102 1000 1000 1
      (long_inventory
        \<lparr>long_inventory = inventory_holding ''long'' 2 []
           (Some (fst (Order_init 0 ''BTC-USD'' ''long'' 100 0 0))),
         short_inventory = inventory_holding ''short'' 2 [filled_order ''short'' 101 101] None\<rparr>)
     = Inr (True, inventory_holding ''long'' 2 [filled_order ''long'' 100 100] None)"
    by (simp add: inventory_holding_def filled_order_def Order_init_def PositionI_step_def
        apply_volume_def is_first_in_queue_def process_executions_def is_filled_def
        Order_size_def Let_def get_average_execution_price_def py_truediv_def py_round4_def
        round_half_even_def)
  have short_held: "positions (short_inventory
        \<lparr>long_inventory = inventory_holding ''long'' 2 []
           (Some (fst (Order_init 0 ''BTC-USD'' ''long'' 100 0 0))),
         short_inventory = inventory_holding ''short'' 2 [filled_order ''short'' 101 101] None\<rparr>)
     = filled_order ''short'' 101 101 # []"
    by (simp add: inventory_holding_def)
  have short_no_fill: "PositionI_step 100 102 1000 1000 1
      (short_inventory
        \<lparr>long_inventory = inventory_holding ''long'' 2 []
           (Some (fst (Order_init 0 ''BTC-USD'' ''long'' 100 0 0))),
         short_inventory = inventory_holding ''short'' 2 [filled_order ''short'' 101 101] None\<rparr>)
     = Inr (False, inventory_holding ''short'' 2 [filled_order ''short'' 101 101] None)"
    by (simp add: inventory_holding_def PositionI_step_def)
  have short_side: "inventory_side (short_inventory
        \<lparr>long_inventory = inventory_holding ''long'' 2 []
           (Some (fst (Order_init 0 ''BTC-USD'' ''long'' 100 0 0))),
         short_inventory = inventory_holding ''short'' 2 [filled_order ''short'' 101 101] None\<rparr>)
     = ''short''"
    by (simp add: inventory_holding_def)
  have price_nz: "price (filled_order ''short'' 101 101) \<noteq> 0"
    by (simp add: filled_order_def)
  have fee_nz: "(1 / 1000 :: real) \<noteq> 0"
    by simp
  have result: "Broker_step (1 / 1000) 100 102 1000 1000 1
        \<lparr>long_inventory = inventory_holding ''long'' 2 []
           (Some (fst (Order_init 0 ''BTC-USD'' ''long'' 100 0 0))),
         short_inventory = inventory_holding ''short'' 2 [filled_order ''short'' 101 101] None\<rparr>
     = Inr (500 / 101,
         \<lparr>long_inventory = inventory_holding ''long'' 2 [] None,
          short_inventory = (inventory_holding ''short'' 2 [] None)
            \<lparr>realized_pnl := 1 / 101, total_trade_count := 1\<rparr>\<rparr>)"
    by (simp add: Broker_step_def net_inventory_def position_count_def
        pop_position_def remove_position_def py_truediv_def reward_scale_def Let_def
        inventory_holding_def filled_order_def Order_init_def PositionI_step_def
        apply_volume_def is_first_in_queue_def process_executions_def is_filled_def
        Order_size_def get_average_execution_price_def py_round4_def round_half_even_def)
  from broker_step_nets_long_fill
    [OF long_fill short_held short_no_fill short_side price_nz fee_nz]
  have "(price (filled_order ''short'' 101 101)
          - price (last (positions
              (inventory_holding ''long'' 2 [filled_order ''long'' 100 100] None))))
        / price (filled_order ''short'' 101 101) / reward_scale (1 / 1000) = 500 / 101"
    unfolding result by auto
  with long_fill short_held short_no_fill result show ?thesis
    by simp
qed

text \<open>
  The claim as it is written fails in the same setting when the short inventory also
  has a resting order, at 102, that the same step fills. The long order is filled and
  the short inventory holds one position, yet after the step the short inventory holds
  one position again and not none, and the value returned is \<open>500 / 101\<close>, the profit
  \<open>(101 - 100) / 101\<close> of the short position over the reward scale, not
  \<open>(100 - 101) / 101\<close> over the reward scale.
\<close>

theorem broker_step_nets_long_fill_counterexample:
  "PositionI_step 100 102 1000 1000 1
      (long_inventory
        \<lparr>long_inventory = inventory_holding ''long'' 2 []
           (Some (fst (Order_init 0 ''BTC-USD'' ''long'' 100 0 0))),
         short_inventory = inventory_holding ''short'' 2 [filled_order ''short'' 101 101]
           (Some (fst (Order_init 1 ''BTC-USD'' ''short'' 102 0 0)))\<rparr>)
     = Inr (True, inventory_holding ''long'' 2 [filled_order ''long'' 100 100] None)
   \<and> position_count (short_inventory
        \<lparr>long_inventory = inventory_holding ''long'' 2 []
           (Some (fst (Order_init 0 ''BTC-USD'' ''long'' 100 0 0))),
         short_inventory = inventory_holding ''short'' 2 [filled_order ''short'' 101 101]
           (Some (fst (Order_init 1 ''BTC-USD'' ''short'' 102 0 0)))\<rparr>) = 1
   \<and> Broker_step (1 / 1000) 100 102 1000 1000 1
        \<lparr>long_inventory = inventory_holding ''long'' 2 []
           (Some (fst (Order_init 0 ''BTC-USD'' ''long'' 100 0 0))),
         short_inventory = inventory_holding ''short'' 2 [filled_order ''short'' 101 101]
           (Some (fst (Order_init 1 ''BTC-USD'' ''short'' 102 0 0)))\<rparr>
     = Inr (500 / 101,
         \<lparr>long_inventory = inventory_holding ''long'' 2 [] None,
          short_inventory =
            (inventory_holding ''short'' 2 [(filled_order ''short'' 102 102)\<lparr>order_id := 2\<rparr>] None)
              \<lparr>realized_pnl := 1 / 101, total_trade_count := 1\<rparr>\<rparr>)
   \<and> position_count (short_inventory
         \<lparr>long_inventory = inventory_holding ''long'' 2 [] None,
          short_inventory =
            (inventory_holding ''short'' 2 [(filled_order ''short'' 102 102)\<lparr>order_id := 2\<rparr>] None)
              \<lparr>realized_pnl := 1 / 101, total_trade_count := 1\<rparr>\<rparr>) = 1
   \<and> (500 / 101 :: real) \<noteq> (100 - 101) / 101 / reward_scale (1 / 1000)"
  by (simp add: Broker_step_def net_inventory_def position_count_def
      pop_position_def remove_position_def py_truediv_def reward_scale_def Let_def
      inventory_holding_def filled_order_def Order_init_def PositionI_step_def
      apply_volume_def is_first_in_queue_def process_executions_def is_filled_def
      Order_size_def get_average_execution_price_def py_round4_def round_half_even_def)

section \<open>Round trip of one long order\<close>

lemma py_round4_grid_fixed: "P * 10000 \<in> \<int> \<Longrightarrow> py_round4 P = P"
proof -
  assume "P * 10000 \<in> \<int>"
  then obtain n :: int where "P * 10000 = of_int n"
    by (auto elim: Ints_cases)
  then have "P = of_int n / 10000"
    by simp
  then show ?thesis
    by (simp only: py_round4_fixed)
qed

text \<open>
  C5, as the code has it. A long inventory is empty: no position, no resting order, the
  flag not set and no exposure, as the constructor or \<^verbatim>\<open>reset\<close> leaves it. A new long
  order at price \<open>P\<close> (not zero) with an empty queue is added, and one step with the bid
  at or below \<open>P\<close> brings a bought volume of at least the lot size. The order is filled
  in that step, the inventory holds one position, and the average price is \<open>P\<close>
  rounded to four decimal places, which is \<open>P\<close> itself when \<open>P\<close> has no more than four
  decimal places. Flattening at \<open>P + \<Delta>\<close> then returns \<open>\<Delta> / P - fee\<close> and leaves no
  position.
\<close>

theorem long_order_round_trip:
  assumes "inventory_side self0 = ''long''" and "positions self0 = []" and "order self0 = None"
    and "\<not> full_inventory self0" and "total_exposure self0 = 0"
    and "P \<noteq> 0" and "bid_price \<le> P" and "Order_size \<le> buy_volume"
  shows "\<exists>self1 self2 self3.
      add_order (fst (Order_init last_id c ''long'' P st 0)) self0 = (True, self1)
      \<and> PositionI_step bid_price ask_price buy_volume sell_volume stp self1 = Inr (True, self2)
      \<and> position_count self2 = 1
      \<and> average_price self2 = py_round4 P
      \<and> (P * 10000 \<in> \<int> \<longrightarrow> average_price self2 = P)
      \<and> price (hd (positions self2)) = P
      \<and> flatten_inventory fee (P + \<Delta>) self2 = Inr (\<Delta> / P - fee, self3)
      \<and> position_count self3 = 0
      \<and> realized_pnl self3 = realized_pnl self0 + \<Delta> / P - fee"
proof -
  define ord0 where "ord0 = fst (Order_init last_id c ''long'' P st 0)"
  define self1 where "self1 = self0\<lparr>order := Some ord0\<rparr>"
  have add: "add_order ord0 self0 = (True, self1)"
    using assms(3,4) by (simp add: add_order_def self1_def)
  have ord0: "price ord0 = P" "executed ord0 = 0" "executions ord0 = []" "queue_ahead ord0 = 0"
    "side ord0 = ''long''"
    by (simp_all add: ord0_def Order_init_def)
  have "apply_volume bid_price ask_price buy_volume sell_volume ord0 =
      ord0\<lparr>queue_ahead := 0, executed := Order_size,
           executions := executions_add (price ord0) (Order_size - executed ord0) (executions ord0)\<rparr>"
    using assms(7,8) by (intro apply_volume_fill) (simp_all add: ord0 Order_size_def)
  then have filled: "apply_volume bid_price ask_price buy_volume sell_volume ord0 =
      ord0\<lparr>queue_ahead := 0, executed := Order_size, executions := [(P, Order_size)]\<rparr>"
    by (simp add: ord0)
  define position where "position =
      ord0\<lparr>queue_ahead := 0, executed := Order_size, executions := [(P, Order_size)],
           average_exectution_price := py_round4 P\<rparr>"
  define self2 where "self2 =
      self0\<lparr>positions := [position], total_exposure := py_round4 P,
            average_price := py_round4 P,
            full_inventory := (max_position_count self0 \<le> 1), order := None\<rparr>"
  have avg: "get_average_execution_price
        (ord0\<lparr>queue_ahead := 0, executed := Order_size, executions := [(P, Order_size)]\<rparr>)
      = Inr (py_round4 P, position)"
    using assms(6) by (simp add: get_average_execution_price_eq position_def Order_size_def)
  have step: "PositionI_step bid_price ask_price buy_volume sell_volume stp self1 = Inr (True, self2)"
    using assms(2,5)
    by (simp add: PositionI_step_def self1_def filled is_filled_def avg self2_def Let_def)
  define self3 where "self3 =
      self2\<lparr>positions := [], realized_pnl := realized_pnl self0 + \<Delta> / P - fee,
            total_exposure := py_round4 P - py_round4 P, average_price := 0,
            full_inventory := (max_position_count self0 \<le> 0),
            total_trade_count := total_trade_count self0 + 1\<rparr>"
  have loop: "flatten_loop fee (P + \<Delta>) self2 = Inr self3"
    using assms(1,6)
      flatten_loop_eq [of self2 "[position]" fee "P + \<Delta>"]
    by (simp add: self2_def self3_def position_def ord0 claimed_pnl_def add_divide_distrib)
  have flatten: "flatten_inventory fee (P + \<Delta>) self2 = Inr (\<Delta> / P - fee, self3)"
    by (simp add: flatten_inventory_def loop position_count_def)
       (simp add: self2_def self3_def)
  have "position_count self2 = 1" "average_price self2 = py_round4 P"
    "price (hd (positions self2)) = P" "position_count self3 = 0"
    "realized_pnl self3 = realized_pnl self0 + \<Delta> / P - fee"
    by (simp_all add: position_count_def self2_def self3_def position_def ord0)
  moreover from this have "P * 10000 \<in> \<int> \<longrightarrow> average_price self2 = P"
    by (simp add: py_round4_grid_fixed)
  ultimately show ?thesis
    using add step flatten unfolding ord0_def by blast
qed

text \<open>
  Capacity 1, an order at 100, a bought volume of 1000 with the bid at 100: one
  position at average price 100. Flattening at 105 with fee \<open>1 / 1000\<close> returns
  \<open>5 / 100 - 1 / 1000\<close>.
\<close>

theorem long_order_round_trip_witness:
  "PositionI_init ''long'' 1 = Inr (inventory_holding ''long'' 1 [] None)
   \<and> inventory_side (inventory_holding ''long'' 1 [] None) = ''long''
   \<and> positions (inventory_holding ''long'' 1 [] None) = []
   \<and> order (inventory_holding ''long'' 1 [] None) = None
   \<and> \<not> full_inventory (inventory_holding ''long'' 1 [] None)
   \<and> total_exposure (inventory_holding ''long'' 1 [] None) = 0
   \<and> (100::real) \<noteq> 0 \<and> (100::real) \<le> 100 \<and> Order_size \<le> 1000
   \<and> add_order (fst (Order_init 0 ''BTC-USD'' ''long'' 100 0 0))
        (inventory_holding ''long'' 1 [] None)
       = (True, inventory_holding ''long'' 1 []
            (Some (fst (Order_init 0 ''BTC-USD'' ''long'' 100 0 0))))
   \<and> PositionI_step 100 101 1000 0 1
        (inventory_holding ''long'' 1 [] (Some (fst (Order_init 0 ''BTC-USD'' ''long'' 100 0 0))))
       = Inr (True, inventory_holding ''long'' 1 [filled_order ''long'' 100 100] None)
   \<and> position_count (inventory_holding ''long'' 1 [filled_order ''long'' 100 100] None) = 1
   \<and> average_price (inventory_holding ''long'' 1 [filled_order ''long'' 100 100] None) = 100
   \<and> flatten_inventory (1 / 1000) (100 + 5)
        (inventory_holding ''long'' 1 [filled_order ''long'' 100 100] None)
       = Inr (5 / 100 - 1 / 1000,
           (inventory_holding ''long'' 1 [] None)
             \<lparr>realized_pnl := 5 / 100 - 1 / 1000, total_trade_count := 1\<rparr>)"
proof -
  have init: "PositionI_init ''long'' 1 = Inr (inventory_holding ''long'' 1 [] None)"
    by (simp add: PositionI_init_def py_truediv_def inventory_holding_def)
  have empty: "inventory_side (inventory_holding ''long'' 1 [] None) = ''long''"
    "positions (inventory_holding ''long'' 1 [] None) = []"
    "order (inventory_holding ''long'' 1 [] None) = None"
    "\<not> full_inventory (inventory_holding ''long'' 1 [] None)"
    "total_exposure (inventory_holding ''long'' 1 [] None) = 0"
    by (simp_all add: inventory_holding_def)
  have price: "(100::real) \<noteq> 0" and bid: "(100::real) \<le> 100"
    and volume: "Order_size \<le> 1000"
    by (simp_all add: Order_size_def)
  have add: "add_order (fst (Order_init 0 ''BTC-USD'' ''long'' 100 0 0))
        (inventory_holding ''long'' 1 [] None)
       = (True, inventory_holding ''long'' 1 []
            (Some (fst (Order_init 0 ''BTC-USD'' ''long'' 100 0 0))))"
    by (simp add: add_order_def inventory_holding_def)
  have step: "PositionI_step 100 101 1000 0 1
        (inventory_holding ''long'' 1 [] (Some (fst (Order_init 0 ''BTC-USD'' ''long'' 100 0 0))))
       = Inr (True, inventory_holding ''long'' 1 [filled_order ''long'' 100 100] None)"
    by (simp add: inventory_holding_def filled_order_def Order_init_def PositionI_step_def
        apply_volume_def is_first_in_queue_def process_executions_def is_filled_def
        Order_size_def Let_def get_average_execution_price_def py_truediv_def py_round4_def
        round_half_even_def)
  have count: "position_count (inventory_holding ''long'' 1 [filled_order ''long'' 100 100] None) = 1"
    and average: "average_price
        (inventory_holding ''long'' 1 [filled_order ''long'' 100 100] None) = 100"
    by (simp_all add: position_count_def inventory_holding_def filled_order_def)
  from long_order_round_trip [OF empty price bid volume,
      of 0 "''BTC-USD''" 0 101 0 1 "1 / 1000" 5] add step
  obtain self3 where flatten: "flatten_inventory (1 / 1000) (100 + 5)
        (inventory_holding ''long'' 1 [filled_order ''long'' 100 100] None)
       = Inr (5 / 100 - 1 / 1000, self3)"
    by auto
  have "flatten_loop (1 / 1000) (100 + 5)
        (inventory_holding ''long'' 1 [filled_order ''long'' 100 100] None)
       = Inr ((inventory_holding ''long'' 1 [] None)
               \<lparr>realized_pnl := 5 / 100 - 1 / 1000, total_trade_count := 1\<rparr>)"
    using flatten_loop_eq [of "inventory_holding ''long'' 1 [filled_order ''long'' 100 100] None"
        "[filled_order ''long'' 100 100]" "1 / 1000" "100 + 5"]
    by (simp add: inventory_holding_def filled_order_def claimed_pnl_def)
  then have "self3 = (inventory_holding ''long'' 1 [] None)
               \<lparr>realized_pnl := 5 / 100 - 1 / 1000, total_trade_count := 1\<rparr>"
    using flatten
    by (simp add: flatten_inventory_def position_count_def inventory_holding_def Let_def)
  with init empty price bid volume add step count average flatten show ?thesis
    by simp
qed

text \<open>
  The claim as it is written fails for a price with a fifth decimal place. An order at
  100.00001 is filled by a volume of 1000 with the bid at 100: the inventory holds one
  position, and its average price is 100, not the price of the order.
\<close>

theorem long_order_round_trip_counterexample:
  "PositionI_init ''long'' 1 = Inr (inventory_holding ''long'' 1 [] None)
   \<and> add_order (fst (Order_init 0 ''BTC-USD'' ''long'' (10000001 / 100000) 0 0))
        (inventory_holding ''long'' 1 [] None)
       = (True, inventory_holding ''long'' 1 []
            (Some (fst (Order_init 0 ''BTC-USD'' ''long'' (10000001 / 100000) 0 0))))
   \<and> (100::real) \<le> 10000001 / 100000 \<and> Order_size \<le> 1000
   \<and> PositionI_step 100 101 1000 0 1
        (inventory_holding ''long'' 1 []
          (Some (fst (Order_init 0 ''BTC-USD'' ''long'' (10000001 / 100000) 0 0))))
       = Inr (True, inventory_holding ''long'' 1
            [filled_order ''long'' (10000001 / 100000) 100] None)
   \<and> position_count (inventory_holding ''long'' 1
        [filled_order ''long'' (10000001 / 100000) 100] None) = 1
   \<and> average_price (inventory_holding ''long'' 1
        [filled_order ''long'' (10000001 / 100000) 100] None) = 100
   \<and> average_price (inventory_holding ''long'' 1
        [filled_order ''long'' (10000001 / 100000) 100] None) \<noteq> 10000001 / 100000"
  by (simp add: inventory_holding_def filled_order_def Order_init_def PositionI_init_def
      add_order_def PositionI_step_def position_count_def
      apply_volume_def is_first_in_queue_def process_executions_def is_filled_def
      Order_size_def Let_def get_average_execution_price_def py_truediv_def py_round4_def
      round_half_even_def)

end
